theory Spec2Isabelle
  imports Main "HOL-Library.Multiset" "HOL-Library.Char_ord" "HOL-Library.List_Lexorder"
begin

section \<open>Strings\<close>

text \<open>
  The extension of \<^verbatim>\<open>src/src/extension.ts\<close> works on JavaScript strings. They are modelled
  as \<^typ>\<open>string\<close>: every \<^typ>\<open>char\<close> is one code unit below 256. The functions of this
  section are the methods of \<^verbatim>\<open>String.prototype\<close> that the extension calls, restricted to
  those code units.
\<close>

text \<open>
  \<^verbatim>\<open>String.prototype.trim\<close> removes white space and line terminators from both ends.
  Below 256 these are TAB, LF, VT, FF, CR, SPACE and NO-BREAK SPACE.
\<close>

definition isWhiteSpace :: "char \<Rightarrow> bool" where
  "isWhiteSpace c = (of_char c \<in> {9, 10, 11, 12, 13, 32, 160 :: nat})"

definition trim :: "string \<Rightarrow> string" where
  "trim s = rev (dropWhile isWhiteSpace (rev (dropWhile isWhiteSpace s)))"

text \<open>
  \<^verbatim>\<open>String.prototype.toLowerCase\<close>: below 256 the letters with a lower-case form are
  \<^verbatim>\<open>A-Z\<close> and \<^verbatim>\<open>U+00C0-U+00DE\<close> without the multiplication sign \<^verbatim>\<open>U+00D7\<close>; the
  lower-case form is 32 code units further.
\<close>

definition toLowerCase_char :: "char \<Rightarrow> char" where
  "toLowerCase_char c =
     (let n = (of_char c :: nat)
      in if (65 \<le> n \<and> n \<le> 90) \<or> (192 \<le> n \<and> n \<le> 222 \<and> n \<noteq> 215)
         then char_of (n + 32) else c)"

definition toLowerCase :: "string \<Rightarrow> string" where
  "toLowerCase s = map toLowerCase_char s"

text \<open>
  \<^verbatim>\<open>String.prototype.lastIndexOf\<close> for a one-character needle; \<open>None\<close> stands for -1.
\<close>

fun lastIndexOf :: "string \<Rightarrow> char \<Rightarrow> nat option" where
  "lastIndexOf [] c = None"
| "lastIndexOf (x # xs) c =
     (case lastIndexOf xs c of
        Some k \<Rightarrow> Some (Suc k)
      | None \<Rightarrow> if x = c then Some 0 else None)"

text \<open>\<^verbatim>\<open>String.prototype.slice(a, b)\<close> for \<open>0 \<le> a\<close> and \<open>0 \<le> b\<close>.\<close>

definition slice :: "string \<Rightarrow> nat \<Rightarrow> nat \<Rightarrow> string" where
  "slice s a b = take (b - a) (drop a s)"

section \<open>Node's path module (POSIX flavour)\<close>

text \<open>
  The extension calls \<^verbatim>\<open>path.join\<close>, \<^verbatim>\<open>path.basename\<close>, \<^verbatim>\<open>path.dirname\<close> and
  \<^verbatim>\<open>path.extname\<close>. They are part of Node, not of the repository; the definitions below
  follow the loops of Node's \<^verbatim>\<open>lib/path.js\<close> for POSIX paths, where the only separator
  is the slash. A loop that walks a path from its last character to its first is a
  recursion over the reversed path: with \<open>c # cs\<close> the characters still to visit, the
  index \<open>i\<close> of \<open>c\<close> is \<open>length cs\<close>.
\<close>

subsection \<open>basename\<close>

fun basename_loop :: "string \<Rightarrow> nat \<Rightarrow> nat option \<Rightarrow> bool \<Rightarrow> nat \<times> nat option" where
  "basename_loop [] start end' matchedSlash = (start, end')"
| "basename_loop (c # cs) start end' matchedSlash =
     (let i = length cs
      in if c = CHR ''/'' then
           (if \<not> matchedSlash then (i + 1, end')
            else basename_loop cs start end' matchedSlash)
         else if end' = None then basename_loop cs start (Some (i + 1)) False
         else basename_loop cs start end' matchedSlash)"

definition basename :: "string \<Rightarrow> string" where
  "basename path =
     (case basename_loop (rev path) 0 None True of
        (start, None) \<Rightarrow> []
      | (start, Some e) \<Rightarrow> slice path start e)"

subsection \<open>dirname\<close>

text \<open>The loop of \<^verbatim>\<open>dirname\<close> stops above index 0: it never visits the first character.\<close>

fun dirname_loop :: "string \<Rightarrow> bool \<Rightarrow> nat option" where
  "dirname_loop [] matchedSlash = None"
| "dirname_loop [c] matchedSlash = None"
| "dirname_loop (c # cs) matchedSlash =
     (let i = length cs
      in if c = CHR ''/'' then
           (if \<not> matchedSlash then Some i else dirname_loop cs matchedSlash)
         else dirname_loop cs False)"

definition dirname :: "string \<Rightarrow> string" where
  "dirname path =
     (if path = [] then ''.''
      else let hasRoot = (hd path = CHR ''/'')
           in case dirname_loop (rev path) True of
                None \<Rightarrow> if hasRoot then ''/'' else ''.''
              | Some e \<Rightarrow> if hasRoot \<and> e = 1 then ''//'' else slice path 0 e)"

subsection \<open>extname\<close>

record extname_state =
  startDot :: "nat option"
  startPart :: nat
  ext_end :: "nat option"
  matchedSlash :: bool
  preDotState :: int

fun extname_loop :: "string \<Rightarrow> extname_state \<Rightarrow> extname_state" where
  "extname_loop [] st = st"
| "extname_loop (code # cs) st =
     (let i = length cs
      in if code = CHR ''/'' then
           (if \<not> matchedSlash st then st\<lparr>startPart := i + 1\<rparr>
            else extname_loop cs st)
         else
           let st1 = (if ext_end st = None
                      then st\<lparr>matchedSlash := False, ext_end := Some (i + 1)\<rparr> else st);
               st2 = (if code = CHR ''.'' then
                        (if startDot st1 = None then st1\<lparr>startDot := Some i\<rparr>
                         else if preDotState st1 \<noteq> 1 then st1\<lparr>preDotState := 1\<rparr>
                         else st1)
                      else if startDot st1 \<noteq> None then st1\<lparr>preDotState := - 1\<rparr>
                      else st1)
           in extname_loop cs st2)"

definition extname :: "string \<Rightarrow> string" where
  "extname path =
     (let st = extname_loop (rev path)
                 \<lparr>startDot = None, startPart = 0, ext_end = None,
                  matchedSlash = True, preDotState = 0\<rparr>
      in case (startDot st, ext_end st) of
           (Some sd, Some e) \<Rightarrow>
             if preDotState st = 0
                \<or> (preDotState st = 1 \<and> sd = e - 1 \<and> sd = startPart st + 1)
             then [] else slice path sd e
         | _ \<Rightarrow> [])"

subsection \<open>normalize and join\<close>

record normalize_state =
  res :: string
  lastSegmentLength :: nat
  lastSlash :: int
  dots :: int

text \<open>
  One round of the loop of \<^verbatim>\<open>normalizeString\<close>, at index \<open>i\<close> with the character
  \<open>code\<close> (a slash when \<open>i\<close> is the length of the path).
\<close>

definition normalizeString_step ::
  "string \<Rightarrow> bool \<Rightarrow> nat \<Rightarrow> char \<Rightarrow> normalize_state \<Rightarrow> normalize_state" where
  "normalizeString_step path allowAboveRoot i code st =
     (if code = CHR ''/'' then
        (if lastSlash st = int i - 1 \<or> dots st = 1 then st\<lparr>lastSlash := int i, dots := 0\<rparr>
         else if dots st = 2 then
           (let r = res st;
                notDotDot = (length r < 2 \<or> lastSegmentLength st \<noteq> 2
                             \<or> r ! (length r - 1) \<noteq> CHR ''.''
                             \<or> r ! (length r - 2) \<noteq> CHR ''.'')
            in if notDotDot \<and> length r > 2 then
                 (case lastIndexOf r (CHR ''/'') of
                    None \<Rightarrow> st\<lparr>res := [], lastSegmentLength := 0, lastSlash := int i, dots := 0\<rparr>
                  | Some k \<Rightarrow>
                      let r' = slice r 0 k
                      in st\<lparr>res := r',
                            lastSegmentLength :=
                              (case lastIndexOf r' (CHR ''/'') of
                                 None \<Rightarrow> length r'
                               | Some j \<Rightarrow> length r' - 1 - j),
                            lastSlash := int i, dots := 0\<rparr>)
               else if notDotDot \<and> length r \<noteq> 0 then
                 st\<lparr>res := [], lastSegmentLength := 0, lastSlash := int i, dots := 0\<rparr>
               else if allowAboveRoot then
                 st\<lparr>res := r @ (if length r > 0 then ''/..'' else ''..''),
                    lastSegmentLength := 2, lastSlash := int i, dots := 0\<rparr>
               else st\<lparr>lastSlash := int i, dots := 0\<rparr>)
         else
           (let seg = slice path (nat (lastSlash st + 1)) i
            in st\<lparr>res := (if length (res st) > 0 then res st @ ''/'' @ seg else seg),
                  lastSegmentLength := nat (int i - lastSlash st - 1),
                  lastSlash := int i, dots := 0\<rparr>))
      else if code = CHR ''.'' \<and> dots st \<noteq> - 1 then st\<lparr>dots := dots st + 1\<rparr>
      else st\<lparr>dots := - 1\<rparr>)"

text \<open>
  The loop runs \<open>i\<close> from 0 to the length of the path inclusive; \<open>code\<close> is the character
  of the round before. At the end of the path it stops when the last character was a
  slash, and otherwise runs one more round as if a slash followed.
\<close>

function normalizeString_loop ::
  "string \<Rightarrow> bool \<Rightarrow> nat \<Rightarrow> char \<Rightarrow> normalize_state \<Rightarrow> string" where
  "normalizeString_loop path allowAboveRoot i code st =
     (if i > length path then res st
      else if i = length path \<and> code = CHR ''/'' then res st
      else let code' = (if i < length path then path ! i else CHR ''/'')
           in normalizeString_loop path allowAboveRoot (i + 1) code'
                (normalizeString_step path allowAboveRoot i code' st))"
  by pat_completeness auto
termination
  by (relation "measure (\<lambda>(path, allowAboveRoot, i, code, st). Suc (length path) - i)") auto

definition normalizeString :: "string \<Rightarrow> bool \<Rightarrow> string" where
  "normalizeString path allowAboveRoot =
     normalizeString_loop path allowAboveRoot 0 (char_of (0 :: nat))
       \<lparr>res = [], lastSegmentLength = 0, lastSlash = - 1, dots = 0\<rparr>"

definition normalize_path :: "string \<Rightarrow> string" where
  "normalize_path path =
     (if path = [] then ''.''
      else let isAbsolute = (hd path = CHR ''/'');
               trailingSeparator = (last path = CHR ''/'');
               p = normalizeString path (\<not> isAbsolute)
           in if p = [] then
                (if isAbsolute then ''/'' else if trailingSeparator then ''./'' else ''.'')
              else let p' = (if trailingSeparator then p @ ''/'' else p)
                   in if isAbsolute then ''/'' @ p' else p')"

fun join_loop :: "string list \<Rightarrow> string option \<Rightarrow> string option" where
  "join_loop [] joined = joined"
| "join_loop (arg # args) joined =
     (if length arg > 0 then
        join_loop args (case joined of None \<Rightarrow> Some arg | Some j \<Rightarrow> Some (j @ ''/'' @ arg))
      else join_loop args joined)"

definition join :: "string list \<Rightarrow> string" where
  "join args =
     (case join_loop args None of
        None \<Rightarrow> ''.''
      | Some joined \<Rightarrow> normalize_path joined)"

section \<open>Values, files and the host\<close>

text \<open>
  What \<^verbatim>\<open>JSON.parse\<close> and \<^verbatim>\<open>yaml.load\<close> return. The extension only asks such a value
  for its type and for three properties, so a number carries an integer.
\<close>

datatype jsvalue =
    JUndefined
  | JNull
  | JBoolean bool
  | JNumber int
  | JString string
  | JArray "jsvalue list"
  | JObject "(string \<times> jsvalue) list"

text \<open>
  \<^verbatim>\<open>data?.key\<close>: \<^verbatim>\<open>undefined\<close> on \<^verbatim>\<open>null\<close> and \<^verbatim>\<open>undefined\<close>, the property of an object,
  and \<^verbatim>\<open>undefined\<close> on every other value for the keys the extension reads (\<^verbatim>\<open>name\<close>,
  \<^verbatim>\<open>description\<close>, \<^verbatim>\<open>command\<close>), which no built-in prototype has.
\<close>

fun optional_get :: "jsvalue \<Rightarrow> string \<Rightarrow> jsvalue" where
  "optional_get (JObject props) key = (case map_of props key of Some v \<Rightarrow> v | None \<Rightarrow> JUndefined)"
| "optional_get v key = JUndefined"

text \<open>\<^verbatim>\<open>v ?? {}\<close>\<close>

fun nullish_default :: "jsvalue \<Rightarrow> jsvalue" where
  "nullish_default JUndefined = JObject []"
| "nullish_default JNull = JObject []"
| "nullish_default v = v"

text \<open>A rejected promise of \<^verbatim>\<open>fs\<close>: the error's code, such as \<^verbatim>\<open>ENOENT\<close> or \<^verbatim>\<open>EACCES\<close>.\<close>

datatype error = FsError string

text \<open>
  What the file system holds at a path: a file whose text can be read, a file (or any
  other entry that is not a directory) whose read is rejected, a directory with the
  entries \<^verbatim>\<open>readdir\<close> lists, or a directory whose listing is rejected. A symbolic link is
  not a directory for \<^verbatim>\<open>Dirent.isDirectory\<close>, so the entries form a finite tree.
\<close>

datatype fsnode =
    RegularFile string
  | UnreadableFile error
  | Directory "(string \<times> fsnode) list"
  | UnreadableDirectory error

fun isDirectory :: "fsnode \<Rightarrow> bool" where
  "isDirectory (Directory entries) = True"
| "isDirectory (UnreadableDirectory e) = True"
| "isDirectory node = False"

fun readFile :: "fsnode \<Rightarrow> error + string" where
  "readFile (RegularFile raw) = Inr raw"
| "readFile (UnreadableFile e) = Inl e"
| "readFile node = Inl (FsError ''EISDIR'')"

text \<open>
  The collaborators that are not part of the repository: the two decoders, which return
  a value or throw (\<open>Inl\<close> carries the error as \<^verbatim>\<open>${error}\<close> renders it), and
  \<^verbatim>\<open>String.prototype.localeCompare\<close>.
\<close>

record host =
  JSON_parse :: "string \<Rightarrow> string + jsvalue"
  yaml_load :: "string \<Rightarrow> string + jsvalue"
  localeCompare :: "string \<Rightarrow> string \<Rightarrow> int"

text \<open>
  A workspace folder, with what the file system holds at
  \<^verbatim>\<open>path.join(folder.uri.fsPath, '.windsurf')\<close>; \<open>None\<close> when \<^verbatim>\<open>fs.access\<close> rejects.
\<close>

record WorkspaceFolder =
  fsPath :: string
  windsurf :: "fsnode option"

section \<open>The extension\<close>

record WorkflowDefinition =
  label :: string
  description :: "string option"
  filePath :: string
  command :: "string option"

datatype FileSystemWatcher = FileSystemWatcher string string

datatype QuickPickItem =
  QuickPickItem (pick_label: string) (pick_description: "string option")
    (pick_workflow: WorkflowDefinition)

datatype WorkflowTreeItem =
  WorkflowTreeItem (item_label: string) (item_description: "string option")
    (tooltip: "string option") (contextValue: "string option")
    (workflow: "WorkflowDefinition option")

text \<open>What the extension does to the host, in the order it does it.\<close>

datatype event =
    ShowWarningMessage string
  | ShowInformationMessage string
  | ShowQuickPick "QuickPickItem list" string
  | CreateTerminal string string
  | TerminalShow bool
  | TerminalSendText string bool
  | CreateFileSystemWatcher FileSystemWatcher
  | WatcherDispose FileSystemWatcher
  | FireDidChangeTreeData

record WorkflowTreeProvider =
  workflows :: "WorkflowDefinition list"
  watchers :: "FileSystemWatcher list"

subsection \<open>isWorkflowFile\<close>

text \<open>
  \<^verbatim>\<open>/(\.workflow|\.ya?ml|\.json)$/i.test(fileName)\<close>: the name ends with one of four
  suffixes. Without the \<^verbatim>\<open>u\<close> flag, \<^verbatim>\<open>i\<close> compares upper-case forms and never lets a
  character from 128 on match one below 128; as the suffixes are ASCII, a character
  matches when its ASCII lower-case form is the pattern's.
\<close>

definition ascii_lower :: "char \<Rightarrow> char" where
  "ascii_lower c =
     (let n = (of_char c :: nat) in if 65 \<le> n \<and> n \<le> 90 then char_of (n + 32) else c)"

definition ends_with_ci :: "string \<Rightarrow> string \<Rightarrow> bool" where
  "ends_with_ci s suf =
     (length suf \<le> length s \<and> map ascii_lower (drop (length s - length suf) s) = suf)"

definition isWorkflowFile :: "string \<Rightarrow> bool" where
  "isWorkflowFile fileName =
     (ends_with_ci fileName ''.workflow'' \<or> ends_with_ci fileName ''.yaml''
      \<or> ends_with_ci fileName ''.yml'' \<or> ends_with_ci fileName ''.json'')"

subsection \<open>parseWorkflow\<close>

text \<open>
  The \<^verbatim>\<open>try\<close> block: the decoder chosen by \<open>ext\<close>; \<^verbatim>\<open>yaml.load\<close>'s result goes through
  \<^verbatim>\<open>?? {}\<close>, \<^verbatim>\<open>JSON.parse\<close>'s does not.
\<close>

definition decode :: "host \<Rightarrow> string \<Rightarrow> string \<Rightarrow> string + jsvalue" where
  "decode H ext raw =
     (if ext = ''.json'' then JSON_parse H raw
      else case yaml_load H raw of Inl err \<Rightarrow> Inl err | Inr v \<Rightarrow> Inr (nullish_default v))"

text \<open>
  \<open>path\<close> is the parameter \<^verbatim>\<open>filePath\<close> and \<open>file\<close> is what the file system holds
  there. The read is outside the \<^verbatim>\<open>try\<close> block, so its rejection leaves the function;
  an error of the decoder is caught, a warning is shown, and \<open>data\<close> keeps its initial
  value \<^verbatim>\<open>{}\<close>.
\<close>

definition parseWorkflow ::
  "host \<Rightarrow> string \<Rightarrow> fsnode \<Rightarrow> event list \<times> (error + WorkflowDefinition)" where
  "parseWorkflow H path file =
     (case readFile file of
        Inl e \<Rightarrow> ([], Inl e)
      | Inr raw \<Rightarrow>
          let ext = toLowerCase (extname path);
              (evs, data) =
                (case decode H ext raw of
                   Inr v \<Rightarrow> ([], v)
                 | Inl err \<Rightarrow>
                     ([ShowWarningMessage
                         (''Unable to parse workflow '' @ basename path @ '': '' @ err)],
                      JObject []));
              label = (case optional_get data ''name'' of
                         JString name \<Rightarrow>
                           if length (trim name) > 0 then trim name else basename path
                       | _ \<Rightarrow> basename path);
              description = (case optional_get data ''description'' of
                               JString d \<Rightarrow> Some d | _ \<Rightarrow> None);
              command = (case optional_get data ''command'' of
                           JString c \<Rightarrow> Some c | _ \<Rightarrow> None)
          in (evs, Inr \<lparr>label = label, description = description,
                        filePath = path, command = command\<rparr>))"

subsection \<open>collectWorkflows\<close>

text \<open>
  \<open>collectWorkflows H dir node\<close> lists the directory \<open>node\<close> found at the path \<open>dir\<close>;
  \<open>collectWorkflows_loop\<close> is its \<^verbatim>\<open>for\<close> loop over the entries, with \<open>results\<close> so far.
  An error leaves both at once; the events shown before it have happened.
\<close>

fun collectWorkflows ::
    "host \<Rightarrow> string \<Rightarrow> fsnode \<Rightarrow> event list \<times> (error + WorkflowDefinition list)"
  and collectWorkflows_loop ::
    "host \<Rightarrow> string \<Rightarrow> (string \<times> fsnode) list \<Rightarrow> WorkflowDefinition list
      \<Rightarrow> event list \<times> (error + WorkflowDefinition list)" where
  "collectWorkflows H dir (Directory entries) = collectWorkflows_loop H dir entries []"
| "collectWorkflows H dir (UnreadableDirectory e) = ([], Inl e)"
| "collectWorkflows H dir (RegularFile raw) = ([], Inl (FsError ''ENOTDIR''))"
| "collectWorkflows H dir (UnreadableFile e) = ([], Inl (FsError ''ENOTDIR''))"
| "collectWorkflows_loop H dir [] results = ([], Inr results)"
| "collectWorkflows_loop H dir ((name, node) # entries) results =
     (let fullPath = join [dir, name]
      in if isDirectory node then
           (case collectWorkflows H fullPath node of
              (evs, Inl e) \<Rightarrow> (evs, Inl e)
            | (evs, Inr sub) \<Rightarrow>
                (case collectWorkflows_loop H dir entries (results @ sub) of
                   (evs', r) \<Rightarrow> (evs @ evs', r)))
         else if \<not> isWorkflowFile name then collectWorkflows_loop H dir entries results
         else
           (case parseWorkflow H fullPath node of
              (evs, Inl e) \<Rightarrow> (evs, Inl e)
            | (evs, Inr parsed) \<Rightarrow>
                (case collectWorkflows_loop H dir entries (results @ [parsed]) of
                   (evs', r) \<Rightarrow> (evs @ evs', r))))"

subsection \<open>loadWorkflows and refresh\<close>

text \<open>
  \<^verbatim>\<open>Array.prototype.sort\<close> with a comparator: a stable sort, \<open>a\<close> staying before \<open>b\<close>
  when the comparator gives them a value that is not positive.
\<close>

fun sort_insert :: "('a \<Rightarrow> 'a \<Rightarrow> int) \<Rightarrow> 'a \<Rightarrow> 'a list \<Rightarrow> 'a list" where
  "sort_insert cmp x [] = [x]"
| "sort_insert cmp x (y # ys) =
     (if cmp x y \<le> 0 then x # y # ys else y # sort_insert cmp x ys)"

definition Array_sort :: "('a \<Rightarrow> 'a \<Rightarrow> int) \<Rightarrow> 'a list \<Rightarrow> 'a list" where
  "Array_sort cmp xs = foldr (sort_insert cmp) xs []"

definition pathExists :: "fsnode option \<Rightarrow> bool" where
  "pathExists node = (node \<noteq> None)"

text \<open>
  The \<^verbatim>\<open>for\<close> loop over the folders, with the local \<open>workflows\<close> and the field
  \<open>watchers\<close> so far. It returns the events, the watchers and the error or the
  collected records. After \<open>pathExists\<close> has answered, \<^verbatim>\<open>readdir\<close> meets the same node,
  so the case \<open>None\<close> below it is never taken.
\<close>

fun loadWorkflows_loop ::
  "host \<Rightarrow> WorkspaceFolder list \<Rightarrow> WorkflowDefinition list \<Rightarrow> FileSystemWatcher list
    \<Rightarrow> event list \<times> FileSystemWatcher list \<times> (error + WorkflowDefinition list)" where
  "loadWorkflows_loop H [] wfs ws = ([], ws, Inr wfs)"
| "loadWorkflows_loop H (folder # folders) wfs ws =
     (let windsorDir = join [fsPath folder, ''.windsurf'']
      in if \<not> pathExists (windsurf folder) then loadWorkflows_loop H folders wfs ws
         else
           (case windsurf folder of
              None \<Rightarrow> loadWorkflows_loop H folders wfs ws
            | Some node \<Rightarrow>
                (case collectWorkflows H windsorDir node of
                   (evs, Inl e) \<Rightarrow> (evs, ws, Inl e)
                 | (evs, Inr folderWorkflows) \<Rightarrow>
                     let watcher = FileSystemWatcher (fsPath folder)
                                     ''.windsurf/**/*.{json,yaml,yml,workflow}''
                     in (case loadWorkflows_loop H folders (wfs @ folderWorkflows)
                                (ws @ [watcher]) of
                           (evs', r) \<Rightarrow> (evs @ CreateFileSystemWatcher watcher # evs', r)))))"

text \<open>
  \<open>workspaceFolders\<close> is \<^verbatim>\<open>vscode.workspace.workspaceFolders\<close>, \<open>None\<close> when no folder is
  open. The field \<open>workflows\<close> is assigned in the last statement only; \<open>watchers\<close> is
  emptied first and grows in the loop.
\<close>

definition loadWorkflows ::
  "host \<Rightarrow> WorkspaceFolder list option \<Rightarrow> WorkflowTreeProvider
    \<Rightarrow> event list \<times> WorkflowTreeProvider \<times> error option" where
  "loadWorkflows H workspaceFolders this =
     (let folders = (case workspaceFolders of None \<Rightarrow> [] | Some fs \<Rightarrow> fs)
      in case loadWorkflows_loop H folders [] [] of
           (evs, ws, Inl e) \<Rightarrow>
             (map WatcherDispose (watchers this) @ evs, this\<lparr>watchers := ws\<rparr>, Some e)
         | (evs, ws, Inr wfs) \<Rightarrow>
             (map WatcherDispose (watchers this) @ evs,
              this\<lparr>watchers := ws,
                   workflows := Array_sort (\<lambda>a b. localeCompare H (label a) (label b)) wfs\<rparr>,
              None))"

definition refresh ::
  "host \<Rightarrow> WorkspaceFolder list option \<Rightarrow> WorkflowTreeProvider
    \<Rightarrow> event list \<times> WorkflowTreeProvider \<times> error option" where
  "refresh H workspaceFolders this =
     (case loadWorkflows H workspaceFolders this of
        (evs, this', Some e) \<Rightarrow> (evs, this', Some e)
      | (evs, this', None) \<Rightarrow> (evs @ [FireDidChangeTreeData], this', None))"

subsection \<open>executeWorkflow and runWorkflow\<close>

definition executeWorkflow :: "WorkflowDefinition \<Rightarrow> event list" where
  \<open>executeWorkflow w =
     (let command = (case command w of
                       Some c \<Rightarrow> c
                     | None \<Rightarrow> ''windsurf run "'' @ filePath w @ ''"'');
          folder = dirname (filePath w)
      in [CreateTerminal (''Windsurf: '' @ label w) folder,
          TerminalShow True,
          TerminalSendText command True])\<close>

text \<open>
  \<open>pick\<close> is the user at the quick pick: the chosen item, or \<open>None\<close> on cancel.
  \<open>item\<close> is the argument, \<open>None\<close> when the command runs from the palette.
\<close>

definition runWorkflow ::
  "(QuickPickItem list \<Rightarrow> QuickPickItem option) \<Rightarrow> WorkflowTreeProvider
    \<Rightarrow> WorkflowTreeItem option \<Rightarrow> event list" where
  "runWorkflow pick this item =
     (case (case item of None \<Rightarrow> None | Some it \<Rightarrow> workflow it) of
        None \<Rightarrow>
          if workflows this = [] then
            [ShowInformationMessage
               ''No workflows available. Add files to the .windsurf directory.'']
          else
            let items = map (\<lambda>w. QuickPickItem (label w) (description w) w)
                          (workflows this)
            in ShowQuickPick items ''Select a workflow to run'' #
               (case pick items of
                  None \<Rightarrow> []
                | Some picked \<Rightarrow> executeWorkflow (pick_workflow picked))
      | Some w \<Rightarrow> executeWorkflow w)"

section \<open>Notions used in the properties\<close>

text \<open>
  The value of \<open>data\<close> in \<open>parseWorkflow\<close> after the \<^verbatim>\<open>try\<close> block, for a file with the
  text \<open>raw\<close> at \<open>path\<close>: what the decoder chosen by the extension returned, or the
  initial \<^verbatim>\<open>{}\<close> when it threw.
\<close>

definition decoded :: "host \<Rightarrow> string \<Rightarrow> string \<Rightarrow> jsvalue" where
  "decoded H path raw =
     (case decode H (toLowerCase (extname path)) raw of Inr v \<Rightarrow> v | Inl err \<Rightarrow> JObject [])"

text \<open>The warnings of \<open>parseWorkflow\<close> for that file: one when the decoder threw.\<close>

definition parse_warnings :: "host \<Rightarrow> string \<Rightarrow> string \<Rightarrow> event list" where
  "parse_warnings H path raw =
     (case decode H (toLowerCase (extname path)) raw of
        Inr v \<Rightarrow> []
      | Inl err \<Rightarrow>
          [ShowWarningMessage (''Unable to parse workflow '' @ basename path @ '': '' @ err)])"

text \<open>
  What \<^verbatim>\<open>Array.prototype.sort\<close> asks of its comparator to give a sorted array: any two
  elements are comparable, and the order is transitive. The collation behind
  \<^verbatim>\<open>localeCompare\<close> is such an order.
\<close>

definition consistent_comparator :: "('a \<Rightarrow> 'a \<Rightarrow> int) \<Rightarrow> bool" where
  "consistent_comparator cmp =
     ((\<forall>a b. cmp a b \<le> 0 \<or> cmp b a \<le> 0)
      \<and> (\<forall>a b c. cmp a b \<le> 0 \<and> cmp b c \<le> 0 \<longrightarrow> cmp a c \<le> 0))"

text \<open>The records are in ascending order of their labels.\<close>

definition sorted_by_label :: "host \<Rightarrow> WorkflowDefinition list \<Rightarrow> bool" where
  "sorted_by_label H rs = sorted_wrt (\<lambda>a b. localeCompare H (label a) (label b) \<le> 0) rs"

text \<open>
  The files a scan of the directory \<open>node\<close> at the path \<open>dir\<close> hands to \<open>parseWorkflow\<close>,
  with their paths, in the order of the scan: the entries that are not directories and
  that \<open>isWorkflowFile\<close> accepts, in \<open>node\<close> and below.
\<close>

fun discovered :: "string \<Rightarrow> fsnode \<Rightarrow> (string \<times> fsnode) list"
  and discovered_entries :: "string \<Rightarrow> (string \<times> fsnode) list \<Rightarrow> (string \<times> fsnode) list" where
  "discovered dir (Directory entries) = discovered_entries dir entries"
| "discovered dir (UnreadableDirectory e) = []"
| "discovered dir (RegularFile raw) = []"
| "discovered dir (UnreadableFile e) = []"
| "discovered_entries dir [] = []"
| "discovered_entries dir ((name, node) # entries) =
     (if isDirectory node then discovered (join [dir, name]) node
      else if isWorkflowFile name then [(join [dir, name], node)]
      else [])
     @ discovered_entries dir entries"

text \<open>
  Every read of a scan succeeds: \<open>node\<close> and the directories below it can be listed, and
  the files handed to \<open>parseWorkflow\<close> can be read.
\<close>

fun scan_readable :: "fsnode \<Rightarrow> bool"
  and entries_readable :: "(string \<times> fsnode) list \<Rightarrow> bool" where
  "scan_readable (Directory entries) = entries_readable entries"
| "scan_readable (UnreadableDirectory e) = False"
| "scan_readable (RegularFile raw) = False"
| "scan_readable (UnreadableFile e) = False"
| "entries_readable [] = True"
| "entries_readable ((name, node) # entries) =
     ((if isDirectory node then scan_readable node
       else if isWorkflowFile name then (case readFile node of Inr raw \<Rightarrow> True | Inl e \<Rightarrow> False)
       else True)
      \<and> entries_readable entries)"

text \<open>The same for the folders of a workspace, over their \<^verbatim>\<open>.windsurf\<close> directories.\<close>

definition scan_files :: "WorkspaceFolder list \<Rightarrow> (string \<times> fsnode) list" where
  "scan_files folders =
     concat (map (\<lambda>folder. case windsurf folder of
                               None \<Rightarrow> []
                             | Some node \<Rightarrow> discovered (join [fsPath folder, ''.windsurf'']) node)
               folders)"

definition folders_readable :: "WorkspaceFolder list \<Rightarrow> bool" where
  "folders_readable folders =
     list_all (\<lambda>folder. case windsurf folder of None \<Rightarrow> True | Some node \<Rightarrow> scan_readable node)
       folders"

fun is_warning :: "event \<Rightarrow> bool" where
  "is_warning (ShowWarningMessage message) = True"
| "is_warning e = False"

text \<open>
  The names \<^verbatim>\<open>readdir\<close> gives to the entries of a directory: not empty, without a
  slash, and neither \<^verbatim>\<open>.\<close> nor \<^verbatim>\<open>..\<close>.
\<close>

definition entry_name :: "string \<Rightarrow> bool" where
  "entry_name name =
     (name \<noteq> [] \<and> CHR ''/'' \<notin> set name \<and> name \<noteq> ''.'' \<and> name \<noteq> ''..'')"

section \<open>Examples\<close>

text \<open>
  Decoders that know a few texts and throw on every other one, and the comparison of
  strings by code units.
\<close>

definition deploy_json :: string where
  \<open>deploy_json = ''{"name": "  Deploy  ", "description": " ", "command": 7}''\<close>

definition blank_json :: string where
  \<open>blank_json = ''{"name": "   ", "description": ""}''\<close>

definition example_JSON :: "(string \<times> jsvalue) list" where
  "example_JSON =
     [(''{}'', JObject []),
      (''null'', JNull),
      (deploy_json,
       JObject [(''name'', JString ''  Deploy  ''), (''description'', JString '' ''),
                (''command'', JNumber 7)]),
      (blank_json,
       JObject [(''name'', JString ''   ''), (''description'', JString '''')])]"

definition example_YAML :: "(string \<times> jsvalue) list" where
  "example_YAML =
     [('''', JUndefined),
      (''{name: Build, command: make}'',
       JObject [(''name'', JString ''Build''), (''command'', JString ''make'')]),
      (''{name: Test, command: echo hi}'',
       JObject [(''name'', JString ''Test''), (''command'', JString ''echo hi'')]),
      (''- a'', JArray [JString ''a''])]"

definition example_host :: host where
  "example_host =
     \<lparr>JSON_parse = (\<lambda>raw. case map_of example_JSON raw of
                              Some v \<Rightarrow> Inr v
                            | None \<Rightarrow> Inl ''SyntaxError: Unexpected token''),
      yaml_load = (\<lambda>raw. case map_of example_YAML raw of
                             Some v \<Rightarrow> Inr v
                           | None \<Rightarrow> Inl ''YAMLException: bad indentation''),
      localeCompare = (\<lambda>a b. if a < b then - 1 else if a = b then 0 else 1)\<rparr>"

text \<open>
  A workspace folder \<^verbatim>\<open>/proj\<close> with a \<^verbatim>\<open>.windsurf\<close> directory, and a folder \<^verbatim>\<open>/other\<close>
  without one. The file \<^verbatim>\<open>sub/.json\<close> holds YAML that is not JSON, and
  \<^verbatim>\<open>sub/broken.yml\<close> a text the YAML decoder rejects.
\<close>

definition example_tree :: fsnode where
  "example_tree =
     Directory
       [(''b.json'', RegularFile ''{}''),
        (''notes.txt'', RegularFile ''remember the milk''),
        (''sub'', Directory
           [(''broken.yml'', RegularFile ''name: [''),
            (''.json'', RegularFile ''{name: Test, command: echo hi}'')]),
        (''a.yaml'', RegularFile ''{name: Build, command: make}'')]"

definition example_folder :: WorkspaceFolder where
  "example_folder = \<lparr>fsPath = ''/proj'', windsurf = Some example_tree\<rparr>"

definition missing_folder :: WorkspaceFolder where
  "missing_folder = \<lparr>fsPath = ''/other'', windsurf = None\<rparr>"

text \<open>The provider as \<^verbatim>\<open>activate\<close> creates it.\<close>

definition new_provider :: WorkflowTreeProvider where
  "new_provider = \<lparr>workflows = [], watchers = []\<rparr>"

text \<open>The records and the watcher of a scan of \<open>example_folder\<close>.\<close>

definition example_records :: "WorkflowDefinition list" where
  "example_records =
     [\<lparr>label = ''Build'', description = None,
        filePath = ''/proj/.windsurf/a.yaml'', command = Some ''make''\<rparr>,
      \<lparr>label = ''Test'', description = None,
        filePath = ''/proj/.windsurf/sub/.json'', command = Some ''echo hi''\<rparr>,
      \<lparr>label = ''b.json'', description = None,
        filePath = ''/proj/.windsurf/b.json'', command = None\<rparr>,
      \<lparr>label = ''broken.yml'', description = None,
        filePath = ''/proj/.windsurf/sub/broken.yml'', command = None\<rparr>]"

definition example_watcher :: FileSystemWatcher where
  "example_watcher = FileSystemWatcher ''/proj'' ''.windsurf/**/*.{json,yaml,yml,workflow}''"

definition scanned_provider :: WorkflowTreeProvider where
  "scanned_provider = \<lparr>workflows = example_records, watchers = [example_watcher]\<rparr>"

text \<open>A folder whose \<^verbatim>\<open>.windsurf\<close> directory lists a file that is gone when it is read.\<close>

definition vanishing_folder :: WorkspaceFolder where
  "vanishing_folder =
     \<lparr>fsPath = ''/proj'',
      windsurf = Some (Directory [(''a.yaml'', RegularFile ''{name: Build, command: make}''),
                                  (''gone.json'', UnreadableFile (FsError ''ENOENT''))])\<rparr>"

text \<open>
  Two workspace folders, the second inside the \<^verbatim>\<open>.windsurf\<close> directory of the first and
  with a \<^verbatim>\<open>.windsurf\<close> directory of its own: the file \<^verbatim>\<open>x.yaml\<close> is under both.
\<close>

definition inner_windsurf :: fsnode where
  "inner_windsurf = Directory [(''x.yaml'', RegularFile ''{name: Build, command: make}'')]"

definition nested_folders :: "WorkspaceFolder list" where
  "nested_folders =
     [\<lparr>fsPath = ''/proj'',
       windsurf = Some (Directory [(''inner'', Directory [(''.windsurf'', inner_windsurf)])])\<rparr>,
      \<lparr>fsPath = ''/proj/.windsurf/inner'', windsurf = Some inner_windsurf\<rparr>]"

section \<open>Properties\<close>

subsection \<open>Strings and evaluation\<close>

lemma dropWhile_all_iff: "(\<forall>x\<in>set (dropWhile P s). P x) \<longleftrightarrow> dropWhile P s = []"
proof
  assume a: "\<forall>x\<in>set (dropWhile P s). P x"
  show "dropWhile P s = []"
  proof (cases "dropWhile P s")
    case (Cons y ys)
    then have "\<not> P y" using hd_dropWhile [of P s] by simp
    moreover have "P y" using a Cons by simp
    ultimately show ?thesis by simp
  qed simp
qed (auto dest: set_dropWhileD)

lemma trim_empty_iff: "trim s = [] \<longleftrightarrow> (\<forall>c\<in>set s. isWhiteSpace c)"
  by (simp add: trim_def dropWhile_eq_Nil_conv dropWhile_all_iff)

subsection \<open>Joining a directory and an entry name\<close>

declare normalizeString_loop.simps [simp del]

lemma step_slash:
  "lastSlash (normalizeString_step path a i (CHR ''/'') st) = int i"
  "dots (normalizeString_step path a i (CHR ''/'') st) = 0"
  by (simp_all add: normalizeString_step_def Let_def split: option.splits)

lemma step_other:
  "c \<noteq> CHR ''/'' \<Longrightarrow>
     normalizeString_step path a i c st =
       st\<lparr>dots := (if c = CHR ''.'' \<and> dots st \<noteq> - 1 then dots st + 1 else - 1)\<rparr>"
  by (simp add: normalizeString_step_def)

lemma step_segment:
  "lastSlash st \<noteq> int i - 1 \<Longrightarrow> dots st \<noteq> 1 \<Longrightarrow> dots st \<noteq> 2 \<Longrightarrow>
     res (normalizeString_step path a i (CHR ''/'') st) =
       (if res st \<noteq> [] then res st @ ''/'' @ slice path (nat (lastSlash st + 1)) i
        else slice path (nat (lastSlash st + 1)) i)"
  by (simp add: normalizeString_step_def Let_def)

lemma loop_prefix:
  "i < k \<Longrightarrow> k \<le> length path \<Longrightarrow> path ! (k - 1) = CHR ''/'' \<Longrightarrow>
     \<exists>st'. normalizeString_loop path a i code st = normalizeString_loop path a k (CHR ''/'') st'
        \<and> lastSlash st' = int k - 1 \<and> dots st' = 0"
proof (induction "k - i" arbitrary: i code st)
  case 0
  then show ?case by simp
next
  case (Suc n)
  from Suc.prems have unfold:
    "normalizeString_loop path a i code st =
       normalizeString_loop path a (i + 1) (path ! i) (normalizeString_step path a i (path ! i) st)"
    by (subst normalizeString_loop.simps) (simp add: Let_def)
  show ?case
  proof (cases "Suc i = k")
    case True
    with Suc.prems have "path ! i = CHR ''/''" by auto
    with True unfold show ?thesis
      by (intro exI [of _ "normalizeString_step path a i (CHR ''/'') st"])
         (auto simp: step_slash)
  next
    case False
    with Suc.prems Suc.hyps have "n = k - Suc i" "Suc i < k" by auto
    from Suc.hyps(1) [OF this Suc.prems(2,3)] unfold show ?thesis by simp
  qed
qed

lemma loop_name:
  "i \<le> length path \<Longrightarrow> \<forall>j. i \<le> j \<and> j < length path \<longrightarrow> path ! j \<noteq> CHR ''/'' \<Longrightarrow>
   (i = length path \<longrightarrow> code \<noteq> CHR ''/'') \<Longrightarrow>
     normalizeString_loop path a i code st =
       res (normalizeString_step path a (length path) (CHR ''/'')
              (st\<lparr>dots := fold (\<lambda>c d. if c = CHR ''.'' \<and> d \<noteq> - 1 then d + 1 else - 1)
                               (drop i path) (dots st)\<rparr>))"
proof (induction "length path - i" arbitrary: i code st)
  case 0
  then have i: "i = length path" by simp
  with "0.prems" show ?case
    by (subst normalizeString_loop.simps, simp add: Let_def, subst normalizeString_loop.simps, simp)
next
  case (Suc n)
  then have lt: "i < length path" by simp
  with Suc.prems have ns: "path ! i \<noteq> CHR ''/''" by simp
  from lt have unfold:
    "normalizeString_loop path a i code st =
       normalizeString_loop path a (i + 1) (path ! i) (normalizeString_step path a i (path ! i) st)"
    by (subst normalizeString_loop.simps) (simp add: Let_def)
  from Suc.hyps(2) lt have n: "n = length path - (i + 1)" by simp
  have d: "drop i path = path ! i # drop (i + 1) path"
    using lt by (simp add: Cons_nth_drop_Suc)
  from Suc.hyps(1) [OF n, of "path ! i" "normalizeString_step path a i (path ! i) st"]
       Suc.prems lt ns
  show ?case
    unfolding unfold d by (simp add: step_other)
qed

lemma fold_dots_minus:
  "fold (\<lambda>c d. if c = CHR ''.'' \<and> d \<noteq> - 1 then d + 1 else - 1) cs (- 1 :: int) = - 1"
  by (induction cs) simp_all

lemma fold_dots:
  "0 \<le> d \<Longrightarrow>
     fold (\<lambda>c d. if c = CHR ''.'' \<and> d \<noteq> - 1 then d + 1 else - 1) cs (d :: int) =
       (if \<forall>c\<in>set cs. c = CHR ''.'' then d + int (length cs) else - 1)"
  by (induction cs arbitrary: d) (auto simp: fold_dots_minus)

lemma fold_dots_entry_name:
  assumes "entry_name name"
  shows "fold (\<lambda>c d. if c = CHR ''.'' \<and> d \<noteq> - 1 then d + 1 else - 1) name (0 :: int) \<notin> {1, 2}"
proof (cases "\<forall>c\<in>set name. c = CHR ''.''")
  case False
  then show ?thesis by (auto simp: fold_dots)
next
  case True
  have "length name \<noteq> 1"
  proof
    assume "length name = 1"
    then obtain c where "name = [c]" by (cases name) auto
    with True assms show False by (simp add: entry_name_def)
  qed
  moreover have "length name \<noteq> 2"
  proof
    assume "length name = 2"
    then obtain c c' where "name = [c, c']"
      by (cases name; cases "tl name") auto
    with True assms show False by (simp add: entry_name_def)
  qed
  ultimately show ?thesis using True by (simp add: fold_dots)
qed

lemma normalizeString_entry_name:
  assumes name: "entry_name name" and p0: "p0 = [] \<or> last p0 = CHR ''/''"
  shows "\<exists>r. normalizeString (p0 @ name) a = r @ name \<and> (r = [] \<or> last r = CHR ''/'')"
proof -
  let ?path = "p0 @ name"
  let ?k = "length p0"
  let ?f = "\<lambda>c d. if c = CHR ''.'' \<and> d \<noteq> - 1 then d + 1 else (- 1 :: int)"
  let ?st0 = "\<lparr>res = [], lastSegmentLength = 0, lastSlash = - 1, dots = 0\<rparr>"
  from name have ne: "name \<noteq> []" and ns: "CHR ''/'' \<notin> set name"
    by (simp_all add: entry_name_def)
  have chars: "\<forall>j. ?k \<le> j \<and> j < length ?path \<longrightarrow> ?path ! j \<noteq> CHR ''/''"
    using ns by (auto simp: nth_append in_set_conv_nth)
  have end_ok: "?k = length ?path \<longrightarrow> c \<noteq> CHR ''/''" for c
    using ne by simp
  obtain st' code where
    start: "normalizeString ?path a = normalizeString_loop ?path a ?k code st'"
    and ls: "lastSlash st' = int ?k - 1" and ds: "dots st' = 0"
  proof (cases "p0 = []")
    case True
    then show ?thesis
      by (intro that [of "char_of (0 :: nat)" ?st0]) (simp_all add: normalizeString_def)
  next
    case False
    with p0 have "?path ! (?k - 1) = CHR ''/''"
      by (simp add: nth_append last_conv_nth)
    with False loop_prefix [of 0 ?k ?path a "char_of (0 :: nat)" ?st0]
    show ?thesis
      by (auto simp: normalizeString_def intro: that)
  qed
  let ?st = "st'\<lparr>dots := fold ?f (drop ?k ?path) (dots st')\<rparr>"
  have final: "normalizeString ?path a =
      res (normalizeString_step ?path a (length ?path) (CHR ''/'') ?st)"
    unfolding start by (rule loop_name [OF _ chars end_ok]) simp
  have d: "dots ?st \<noteq> 1" "dots ?st \<noteq> 2"
    using fold_dots_entry_name [OF name] ds by auto
  have l: "lastSlash ?st \<noteq> int (length ?path) - 1"
    using ls ne by simp
  have seg: "slice ?path (nat (lastSlash ?st + 1)) (length ?path) = name"
    using ls by (simp add: slice_def)
  from step_segment [OF l d, of ?path a] seg final
  have "normalizeString ?path a = (if res st' \<noteq> [] then res st' @ ''/'' @ name else name)"
    by simp
  then show ?thesis
    by (cases "res st' = []") (auto intro: exI [of _ "res st' @ ''/''"])
qed

lemma join_entry_name:
  assumes "entry_name name"
  shows "\<exists>r. join [dir, name] = r @ name \<and> (r = [] \<or> last r = CHR ''/'')"
proof -
  from assms have ne: "name \<noteq> []" and ns: "CHR ''/'' \<notin> set name"
    by (simp_all add: entry_name_def)
  define p0 where "p0 = (if dir = [] then [] else dir @ ''/'')"
  have p0: "p0 = [] \<or> last p0 = CHR ''/''" by (simp add: p0_def)
  have j: "join [dir, name] = normalize_path (p0 @ name)"
    using ne by (simp add: join_def p0_def)
  have nl: "last (p0 @ name) \<noteq> CHR ''/''"
    using ne ns by (metis last_appendR last_in_set)
  from normalizeString_entry_name [OF assms p0] obtain r where
    r: "normalizeString (p0 @ name) (\<not> hd (p0 @ name) = CHR ''/'') = r @ name"
       "r = [] \<or> last r = CHR ''/''"
    by blast
  show ?thesis
  proof (cases "hd (p0 @ name) = CHR ''/''")
    case True
    with r ne nl have "join [dir, name] = (''/'' @ r) @ name"
      unfolding j by (simp add: normalize_path_def Let_def)
    moreover have "last (''/'' @ r) = CHR ''/''" using r(2) by auto
    ultimately show ?thesis by blast
  next
    case False
    with r ne nl have "join [dir, name] = r @ name"
      unfolding j by (simp add: normalize_path_def Let_def)
    with r(2) show ?thesis by blast
  qed
qed

lemma basename_loop_skip:
  "CHR ''/'' \<notin> set cs \<Longrightarrow>
     basename_loop (cs @ rest) start (Some e) False = basename_loop rest start (Some e) False"
  by (induction cs) (auto simp: Let_def)

lemma basename_append_entry_name:
  assumes "entry_name name" and r: "r = [] \<or> last r = CHR ''/''"
  shows "basename (r @ name) = name"
proof -
  from assms have ne: "name \<noteq> []" and ns: "CHR ''/'' \<notin> set name"
    by (simp_all add: entry_name_def)
  from ne obtain c cs where rn: "rev name = c # cs" by (cases "rev name") auto
  with ns have c: "c \<noteq> CHR ''/''" and cs: "CHR ''/'' \<notin> set cs"
    by (metis list.set_intros(1) set_rev, metis list.set_intros(2) set_rev)
  have len: "Suc (length cs) = length name"
    using rn by (metis length_Cons length_rev)
  have "basename_loop (rev (r @ name)) 0 None True =
          basename_loop (rev r) 0 (Some (length (r @ name))) False"
    using c by (simp add: rn basename_loop_skip [OF cs] len [symmetric] add.commute)
  also have "\<dots> = (length r, Some (length (r @ name)))"
  proof (cases "r = []")
    case True
    then show ?thesis by simp
  next
    case False
    with r obtain r' where "r = r' @ ''/''"
      by (metis append_butlast_last_id)
    then show ?thesis by simp
  qed
  finally show ?thesis
    by (simp add: basename_def slice_def)
qed

lemma basename_join:
  "entry_name name \<Longrightarrow> basename (join [dir, name]) = name"
proof -
  assume n: "entry_name name"
  from join_entry_name [OF n, of dir] obtain r where
    "join [dir, name] = r @ name" and "r = [] \<or> last r = CHR ''/''"
    by blast
  with basename_append_entry_name [OF n, of r] show ?thesis by simp
qed

subsection \<open>parseWorkflow\<close>

lemma parseWorkflow_readable:
  "parseWorkflow H path (RegularFile raw) =
     (parse_warnings H path raw,
      Inr \<lparr>label = (case optional_get (decoded H path raw) ''name'' of
                      JString name \<Rightarrow> if length (trim name) > 0 then trim name else basename path
                    | _ \<Rightarrow> basename path),
           description = (case optional_get (decoded H path raw) ''description'' of
                            JString d \<Rightarrow> Some d | _ \<Rightarrow> None),
           filePath = path,
           command = (case optional_get (decoded H path raw) ''command'' of
                        JString c \<Rightarrow> Some c | _ \<Rightarrow> None)\<rparr>)"
  by (simp add: parseWorkflow_def decoded_def parse_warnings_def split: sum.splits)

lemma parseWorkflow_unreadable:
  "readFile file = Inl e \<Longrightarrow> parseWorkflow H path file = ([], Inl e)"
  by (simp add: parseWorkflow_def)

text \<open>
  Claim C4. For a file whose text was read, the record's label is the trimmed \<^verbatim>\<open>name\<close>
  when the decoded \<^verbatim>\<open>name\<close> is a string with a character that is not white space, and
  the base name of the path otherwise (no \<^verbatim>\<open>name\<close>, a value that is not a string,
  only white space). The description and the command are the decoded fields exactly
  when these are strings, and absent otherwise.
\<close>

theorem parseWorkflow_label_and_fields:
  "\<exists>r. parseWorkflow H path (RegularFile raw) = (parse_warnings H path raw, Inr r)
     \<and> label r =
         (case optional_get (decoded H path raw) ''name'' of
            JString name \<Rightarrow>
              if \<forall>c\<in>set name. isWhiteSpace c then basename path else trim name
          | _ \<Rightarrow> basename path)
     \<and> (\<forall>s. description r = Some s
            \<longleftrightarrow> optional_get (decoded H path raw) ''description'' = JString s)
     \<and> (\<forall>s. command r = Some s
            \<longleftrightarrow> optional_get (decoded H path raw) ''command'' = JString s)"
  by (auto simp: parseWorkflow_readable trim_empty_iff split: jsvalue.splits)

subsection \<open>Examples for the label and the fields\<close>

lemma example_deploy_decoded:
  "decoded example_host ''/proj/.windsurf/deploy.json'' deploy_json =
   JObject [(''name'', JString ''  Deploy  ''), (''description'', JString '' ''),
            (''command'', JNumber 7)]"
  by code_simp

lemma example_blank_decoded:
  "decoded example_host ''/proj/.windsurf/blank.json'' blank_json =
   JObject [(''name'', JString ''   ''), (''description'', JString '''')]"
  by code_simp

lemma example_trim: "trim ''  Deploy  '' = ''Deploy''"
  by code_simp

lemma example_basename: "basename ''/proj/.windsurf/blank.json'' = ''blank.json''"
  by code_simp

lemma example_isWhiteSpace: "\<not> isWhiteSpace CHR ''D''" "isWhiteSpace CHR '' ''"
  by (simp_all add: isWhiteSpace_def)


theorem parseWorkflow_label_and_fields_witness:
  "(\<exists>r. snd (parseWorkflow example_host ''/proj/.windsurf/deploy.json''
              (RegularFile deploy_json)) = Inr r
        \<and> label r = ''Deploy'' \<and> description r = Some '' '' \<and> command r = None)
    \<and> (\<exists>r. snd (parseWorkflow example_host ''/proj/.windsurf/blank.json''
              (RegularFile blank_json)) = Inr r
        \<and> label r = ''blank.json'' \<and> description r = Some [] \<and> command r = None)"
proof -
  obtain r where r:
      "parseWorkflow example_host ''/proj/.windsurf/deploy.json'' (RegularFile deploy_json) =
         (parse_warnings example_host ''/proj/.windsurf/deploy.json'' deploy_json, Inr r)"
      "label r =
         (case optional_get (decoded example_host ''/proj/.windsurf/deploy.json'' deploy_json)
                 ''name'' of
            JString name \<Rightarrow>
              if \<forall>c\<in>set name. isWhiteSpace c then basename ''/proj/.windsurf/deploy.json''
              else trim name
          | _ \<Rightarrow> basename ''/proj/.windsurf/deploy.json'')"
      "\<And>s. description r = Some s \<longleftrightarrow>
         optional_get (decoded example_host ''/proj/.windsurf/deploy.json'' deploy_json)
           ''description'' = JString s"
      "\<And>s. command r = Some s \<longleftrightarrow>
         optional_get (decoded example_host ''/proj/.windsurf/deploy.json'' deploy_json)
           ''command'' = JString s"
    using parseWorkflow_label_and_fields
            [of example_host "''/proj/.windsurf/deploy.json''" deploy_json]
    by blast
  have r1: "label r = ''Deploy''"
    using r(2) by (simp add: example_deploy_decoded example_trim example_isWhiteSpace)
  have r2: "description r = Some '' ''"
    using r(3) [of "'' ''"] by (simp add: example_deploy_decoded)
  have r3: "command r = None"
    using r(4) by (cases "command r") (auto simp: example_deploy_decoded)
  obtain q where q:
      "parseWorkflow example_host ''/proj/.windsurf/blank.json'' (RegularFile blank_json) =
         (parse_warnings example_host ''/proj/.windsurf/blank.json'' blank_json, Inr q)"
      "label q =
         (case optional_get (decoded example_host ''/proj/.windsurf/blank.json'' blank_json)
                 ''name'' of
            JString name \<Rightarrow>
              if \<forall>c\<in>set name. isWhiteSpace c then basename ''/proj/.windsurf/blank.json''
              else trim name
          | _ \<Rightarrow> basename ''/proj/.windsurf/blank.json'')"
      "\<And>s. description q = Some s \<longleftrightarrow>
         optional_get (decoded example_host ''/proj/.windsurf/blank.json'' blank_json)
           ''description'' = JString s"
      "\<And>s. command q = Some s \<longleftrightarrow>
         optional_get (decoded example_host ''/proj/.windsurf/blank.json'' blank_json)
           ''command'' = JString s"
    using parseWorkflow_label_and_fields
            [of example_host "''/proj/.windsurf/blank.json''" blank_json]
    by blast
  have q1: "label q = ''blank.json''"
    using q(2) by (simp add: example_blank_decoded example_basename example_isWhiteSpace)
  have q2: "description q = Some []"
    using q(3) [of "[]"] by (simp add: example_blank_decoded)
  have q3: "command q = None"
    using q(4) by (cases "command q") (auto simp: example_blank_decoded)
  show ?thesis
    using r(1) r1 r2 r3 q(1) q1 q2 q3 by simp
qed

subsection \<open>Launching\<close>

text \<open>
  Claim C5. Launching a record, from its tree item or after the quick pick, sends the
  terminal the record's \<^verbatim>\<open>command\<close> when it has one and otherwise the text
  \<^verbatim>\<open>windsurf run "<filePath>"\<close>, the path between double quotes; in both cases the
  terminal's working directory is \<^verbatim>\<open>path.dirname\<close> of the record's path.
\<close>

theorem launch_command_and_cwd:
  \<open>executeWorkflow w =
     [CreateTerminal (''Windsurf: '' @ label w) (dirname (filePath w)),
      TerminalShow True,
      TerminalSendText
        (case command w of Some c \<Rightarrow> c | None \<Rightarrow> ''windsurf run "'' @ filePath w @ ''"'')
        True]
   \<and> (workflow item = Some w \<longrightarrow> runWorkflow pick this (Some item) = executeWorkflow w)
   \<and> (workflows this \<noteq> []
        \<and> pick (map (\<lambda>w. QuickPickItem (label w) (description w) w) (workflows this))
            = Some (QuickPickItem l d w)
      \<longrightarrow> runWorkflow pick this None =
            ShowQuickPick (map (\<lambda>w. QuickPickItem (label w) (description w) w) (workflows this))
              ''Select a workflow to run'' # executeWorkflow w)\<close>
  by (simp add: executeWorkflow_def runWorkflow_def)

lemma example_dirname: "dirname ''/proj/.windsurf/a.yaml'' = ''/proj/.windsurf''"
  by code_simp

theorem launch_command_and_cwd_witness:
  \<open>runWorkflow (\<lambda>items. None) \<lparr>workflows = [], watchers = []\<rparr>
     (Some (WorkflowTreeItem ''Test'' None (Some ''/proj/.windsurf/a.yaml'') (Some ''workflow'')
        (Some \<lparr>label = ''Test'', description = None, filePath = ''/proj/.windsurf/a.yaml'',
               command = Some ''echo hi''\<rparr>))) =
     [CreateTerminal ''Windsurf: Test'' ''/proj/.windsurf'', TerminalShow True,
      TerminalSendText ''echo hi'' True]
   \<and> runWorkflow (\<lambda>items. Some (hd items))
       \<lparr>workflows = [\<lparr>label = ''a.yaml'', description = None,
                       filePath = ''/proj/.windsurf/a.yaml'', command = None\<rparr>],
        watchers = []\<rparr> None =
     [ShowQuickPick
        [QuickPickItem ''a.yaml'' None
           \<lparr>label = ''a.yaml'', description = None, filePath = ''/proj/.windsurf/a.yaml'',
            command = None\<rparr>] ''Select a workflow to run'',
      CreateTerminal ''Windsurf: a.yaml'' ''/proj/.windsurf'', TerminalShow True,
      TerminalSendText ''windsurf run "/proj/.windsurf/a.yaml"'' True]\<close>
  using
    launch_command_and_cwd
      [of "\<lparr>label = ''Test'', description = None, filePath = ''/proj/.windsurf/a.yaml'',
            command = Some ''echo hi''\<rparr>"
          "WorkflowTreeItem ''Test'' None (Some ''/proj/.windsurf/a.yaml'') (Some ''workflow'')
             (Some \<lparr>label = ''Test'', description = None,
                    filePath = ''/proj/.windsurf/a.yaml'', command = Some ''echo hi''\<rparr>)"
          "\<lambda>items. None" "\<lparr>workflows = [], watchers = []\<rparr>"]
    launch_command_and_cwd
      [of "\<lparr>label = ''a.yaml'', description = None, filePath = ''/proj/.windsurf/a.yaml'',
            command = None\<rparr>"
          "WorkflowTreeItem ''a.yaml'' None (Some ''/proj/.windsurf/a.yaml'') (Some ''workflow'')
             (Some \<lparr>label = ''a.yaml'', description = None,
                    filePath = ''/proj/.windsurf/a.yaml'', command = None\<rparr>)"
          "\<lambda>items. Some (hd items)"
          "\<lparr>workflows = [\<lparr>label = ''a.yaml'', description = None,
                          filePath = ''/proj/.windsurf/a.yaml'', command = None\<rparr>],
            watchers = []\<rparr>" "''a.yaml''" None]
  by (simp add: example_dirname)

text \<open>
  Claim C7. Without a record to launch (no item, or an item without a record): when the
  list is empty the only effect is the information message; when the list is not empty
  and the user cancels the quick pick, the only effect is the quick pick itself. No
  terminal is created in either case.
\<close>

theorem runWorkflow_nothing_to_run:
  "(case item of None \<Rightarrow> None | Some it \<Rightarrow> workflow it) = None \<Longrightarrow>
     (workflows this = [] \<longrightarrow>
        runWorkflow pick this item =
          [ShowInformationMessage
             ''No workflows available. Add files to the .windsurf directory.''])
   \<and> (workflows this \<noteq> []
        \<and> pick (map (\<lambda>w. QuickPickItem (label w) (description w) w) (workflows this)) = None
      \<longrightarrow> runWorkflow pick this item =
            [ShowQuickPick
               (map (\<lambda>w. QuickPickItem (label w) (description w) w) (workflows this))
               ''Select a workflow to run''])"
  by (simp add: runWorkflow_def)

theorem runWorkflow_nothing_to_run_witness:
  "runWorkflow (\<lambda>items. None) \<lparr>workflows = [], watchers = []\<rparr> None =
     [ShowInformationMessage ''No workflows available. Add files to the .windsurf directory.'']
   \<and> runWorkflow (\<lambda>items. None)
       \<lparr>workflows = [\<lparr>label = ''a.yaml'', description = None,
                       filePath = ''/proj/.windsurf/a.yaml'', command = None\<rparr>],
        watchers = []\<rparr>
       (Some (WorkflowTreeItem ''No workflows found'' None
                (Some ''Create workflow files inside the .windsurf directory to see them here.'')
                (Some ''empty'') None)) =
     [ShowQuickPick
        [QuickPickItem ''a.yaml'' None
           \<lparr>label = ''a.yaml'', description = None, filePath = ''/proj/.windsurf/a.yaml'',
            command = None\<rparr>] ''Select a workflow to run'']"
  using
    runWorkflow_nothing_to_run
      [of None "\<lparr>workflows = [], watchers = []\<rparr>" "\<lambda>items. None"]
    runWorkflow_nothing_to_run
      [of "Some (WorkflowTreeItem ''No workflows found'' None
                   (Some ''Create workflow files inside the .windsurf directory to see them here.'')
                   (Some ''empty'') None)"
          "\<lparr>workflows = [\<lparr>label = ''a.yaml'', description = None,
                          filePath = ''/proj/.windsurf/a.yaml'', command = None\<rparr>],
            watchers = []\<rparr>" "\<lambda>items. None"]
  by simp

subsection \<open>The description\<close>

text \<open>
  Claim C10. When the decoded \<^verbatim>\<open>description\<close> is a string, the record's description is
  that string as it is: it is not trimmed, and the empty string and a string of white
  space are kept, where the label would fall back to the base name.
\<close>

theorem description_verbatim:
  "optional_get (decoded H path raw) ''description'' = JString d \<Longrightarrow>
     \<exists>r. parseWorkflow H path (RegularFile raw) = (parse_warnings H path raw, Inr r)
        \<and> description r = Some d"
  by (simp add: parseWorkflow_readable)

theorem description_verbatim_witness:
  "optional_get (decoded example_host ''/proj/.windsurf/deploy.json'' deploy_json)
     ''description'' = JString '' ''
   \<and> optional_get (decoded example_host ''/proj/.windsurf/blank.json'' blank_json)
     ''description'' = JString []
   \<and> (\<exists>r. snd (parseWorkflow example_host ''/proj/.windsurf/deploy.json''
                 (RegularFile deploy_json)) = Inr r \<and> description r = Some '' '')
   \<and> (\<exists>r. snd (parseWorkflow example_host ''/proj/.windsurf/blank.json''
                 (RegularFile blank_json)) = Inr r \<and> description r = Some [])"
proof -
  have d1: "optional_get (decoded example_host ''/proj/.windsurf/deploy.json'' deploy_json)
              ''description'' = JString '' ''"
    by (simp add: example_deploy_decoded)
  have d2: "optional_get (decoded example_host ''/proj/.windsurf/blank.json'' blank_json)
              ''description'' = JString []"
    by (simp add: example_blank_decoded)
  from description_verbatim [OF d1] description_verbatim [OF d2] d1 d2
  show ?thesis by auto
qed

subsection \<open>The loop over the folders\<close>

lemma loadWorkflows_loop_skip:
  "windsurf folder = None \<Longrightarrow>
     loadWorkflows_loop H (pre @ folder # post) wfs ws = loadWorkflows_loop H (pre @ post) wfs ws"
  by (induction pre arbitrary: wfs ws)
     (simp_all add: pathExists_def split: option.splits prod.splits sum.splits)

lemma example_scan:
  "loadWorkflows example_host (Some [example_folder]) new_provider =
     ([ShowWarningMessage
         ''Unable to parse workflow broken.yml: YAMLException: bad indentation'',
       CreateFileSystemWatcher example_watcher],
      scanned_provider, None)"
  by code_simp

lemma example_rescan:
  "loadWorkflows example_host (Some [example_folder]) scanned_provider =
     ([WatcherDispose example_watcher,
       ShowWarningMessage
         ''Unable to parse workflow broken.yml: YAMLException: bad indentation'',
       CreateFileSystemWatcher example_watcher],
      scanned_provider, None)"
  by code_simp

text \<open>
  Claim C8. A folder whose \<^verbatim>\<open>.windsurf\<close> directory does not exist changes nothing in a
  scan: the records, the warnings, the watchers and the error, if any, are those of the
  scan of the other folders, before and after it in the list. Alone, it gives an empty
  list and no error.
\<close>

theorem missing_directory_skipped:
  "windsurf folder = None \<Longrightarrow>
     loadWorkflows H (Some (pre @ folder # post)) this = loadWorkflows H (Some (pre @ post)) this
   \<and> loadWorkflows H (Some [folder]) this =
       (map WatcherDispose (watchers this), this\<lparr>watchers := [], workflows := []\<rparr>, None)"
  using loadWorkflows_loop_skip [of folder H pre post "[]" "[]"]
  by (simp add: loadWorkflows_def pathExists_def Array_sort_def)

theorem missing_directory_skipped_witness:
  "windsurf missing_folder = None
   \<and> loadWorkflows example_host (Some [missing_folder, example_folder, missing_folder])
       new_provider =
     loadWorkflows example_host (Some [example_folder]) new_provider
   \<and> loadWorkflows example_host (Some [missing_folder]) new_provider =
       ([], \<lparr>workflows = [], watchers = []\<rparr>, None)"
proof -
  have m: "windsurf missing_folder = None"
    by (simp add: missing_folder_def)
  from missing_directory_skipped [OF m, of example_host "[]" "[example_folder, missing_folder]"]
       missing_directory_skipped [OF m, of example_host "[example_folder]" "[]"]
       missing_directory_skipped [OF m, of example_host "[]" "[]" new_provider]
  show ?thesis
    using m by (simp add: new_provider_def)
qed

subsection \<open>Sorting\<close>

lemma set_sort_insert: "set (sort_insert cmp x ys) = insert x (set ys)"
  by (induction ys) auto

lemma mset_sort_insert: "mset (sort_insert cmp x ys) = add_mset x (mset ys)"
  by (induction ys) auto

lemma mset_Array_sort: "mset (Array_sort cmp xs) = mset xs"
  by (induction xs) (simp_all add: Array_sort_def mset_sort_insert)

lemma sorted_sort_insert:
  assumes "consistent_comparator cmp" and "sorted_wrt (\<lambda>a b. cmp a b \<le> 0) ys"
  shows "sorted_wrt (\<lambda>a b. cmp a b \<le> 0) (sort_insert cmp x ys)"
  using assms(2)
proof (induction ys)
  case Nil
  then show ?case by simp
next
  case (Cons y ys)
  have total: "\<And>a b. cmp a b \<le> 0 \<or> cmp b a \<le> 0"
    and trans: "\<And>a b c. cmp a b \<le> 0 \<Longrightarrow> cmp b c \<le> 0 \<Longrightarrow> cmp a c \<le> 0"
    using assms(1) unfolding consistent_comparator_def by blast+
  show ?case
  proof (cases "cmp x y \<le> 0")
    case True
    then have "\<forall>z\<in>set ys. cmp x z \<le> 0"
      using Cons.prems trans by auto
    with True Cons.prems show ?thesis by simp
  next
    case False
    then have "cmp y x \<le> 0" using total [of x y] by simp
    with False Cons show ?thesis by (auto simp: set_sort_insert)
  qed
qed

lemma sorted_Array_sort:
  "consistent_comparator cmp \<Longrightarrow> sorted_wrt (\<lambda>a b. cmp a b \<le> 0) (Array_sort cmp xs)"
  by (induction xs) (simp_all add: Array_sort_def sorted_sort_insert)

lemma consistent_comparator_label:
  "consistent_comparator cmp \<Longrightarrow> consistent_comparator (\<lambda>a b. cmp (label a) (label b))"
  unfolding consistent_comparator_def by blast

lemma example_host_consistent: "consistent_comparator (localeCompare example_host)"
  unfolding consistent_comparator_def example_host_def by auto

text \<open>
  Claim C3. With a comparison of labels that is total and transitive, as a collation is:
  after a scan that completes, the provider's list is in ascending order of the labels;
  and a list in that order stays so through any scan, completed or not.
\<close>

theorem workflows_sorted_by_label:
  "consistent_comparator (localeCompare H) \<Longrightarrow>
   loadWorkflows H workspaceFolders this = (evs, this', err) \<Longrightarrow>
     (err = None \<longrightarrow> sorted_by_label H (workflows this'))
   \<and> (sorted_by_label H (workflows this) \<longrightarrow> sorted_by_label H (workflows this'))"
  using sorted_Array_sort [OF consistent_comparator_label, of "localeCompare H"]
  by (auto simp: loadWorkflows_def sorted_by_label_def split: prod.splits sum.splits)

theorem workflows_sorted_by_label_witness:
  "consistent_comparator (localeCompare example_host)
   \<and> loadWorkflows example_host (Some [example_folder]) new_provider =
       ([ShowWarningMessage
           ''Unable to parse workflow broken.yml: YAMLException: bad indentation'',
         CreateFileSystemWatcher example_watcher],
        scanned_provider, None)
   \<and> sorted_by_label example_host (workflows scanned_provider)
   \<and> map label (workflows scanned_provider) = [''Build'', ''Test'', ''b.json'', ''broken.yml'']"
  using workflows_sorted_by_label [OF example_host_consistent example_scan]
    example_host_consistent example_scan
  by (simp add: scanned_provider_def example_records_def)

subsection \<open>Scanning again\<close>

text \<open>
  Claim C6. A second scan of the same folders, with the same files and the same
  decoders, leaves the provider's list of records as the first scan left it (the same
  records with the same fields, in the same order), and ends as the first did.
\<close>

theorem rescan_idempotent:
  "loadWorkflows H workspaceFolders this = (evs, this', err) \<Longrightarrow>
   loadWorkflows H workspaceFolders this' = (evs', this'', err') \<Longrightarrow>
     workflows this'' = workflows this' \<and> watchers this'' = watchers this' \<and> err' = err"
  by (auto simp: loadWorkflows_def split: prod.splits sum.splits)

theorem rescan_idempotent_witness:
  "loadWorkflows example_host (Some [example_folder]) new_provider =
     ([ShowWarningMessage
         ''Unable to parse workflow broken.yml: YAMLException: bad indentation'',
       CreateFileSystemWatcher example_watcher],
      scanned_provider, None)
   \<and> loadWorkflows example_host (Some [example_folder]) scanned_provider =
     ([WatcherDispose example_watcher,
       ShowWarningMessage
         ''Unable to parse workflow broken.yml: YAMLException: bad indentation'',
       CreateFileSystemWatcher example_watcher],
      scanned_provider, None)
   \<and> workflows scanned_provider = example_records"
  using rescan_idempotent [OF example_scan example_rescan] example_scan example_rescan
  by (simp add: scanned_provider_def)

subsection \<open>The scan of a directory\<close>

lemma readFile_Inr: "readFile file = Inr raw \<longleftrightarrow> file = RegularFile raw"
  by (cases "file") auto

lemma parseWorkflow_returns:
  "readFile file = Inr raw \<Longrightarrow> \<exists>r. parseWorkflow H path file = (parse_warnings H path raw, Inr r)"
  by (simp add: readFile_Inr parseWorkflow_readable)

lemma parseWorkflow_error_iff:
  "(\<exists>evs e. parseWorkflow H path file = (evs, Inl e)) \<longleftrightarrow> (\<exists>e. readFile file = Inl e)"
proof (cases "readFile file")
  case (Inl e)
  then show ?thesis by (simp add: parseWorkflow_unreadable)
next
  case (Inr raw)
  then show ?thesis using parseWorkflow_returns [OF Inr, of H path] by auto
qed

lemma collect_readable:
  "scan_readable node \<Longrightarrow>
     \<exists>rs. collectWorkflows H dir node =
            (concat (map (\<lambda>(p, f). fst (parseWorkflow H p f)) (discovered dir node)), Inr rs)
        \<and> list_all2 (\<lambda>(p, f) r. snd (parseWorkflow H p f) = Inr r) (discovered dir node) rs"
  "entries_readable entries \<Longrightarrow>
     \<exists>rs. collectWorkflows_loop H dir entries results =
            (concat (map (\<lambda>(p, f). fst (parseWorkflow H p f)) (discovered_entries dir entries)),
             Inr (results @ rs))
        \<and> list_all2 (\<lambda>(p, f) r. snd (parseWorkflow H p f) = Inr r)
             (discovered_entries dir entries) rs"
proof (induction H dir node and H dir entries results
       rule: collectWorkflows_collectWorkflows_loop.induct)
  case (1 H dir entries)
  then show ?case by simp
next
  case (6 H dir name node entries results)
  let ?x = "join [dir, name]"
  from "6.prems" have rest: "entries_readable entries" by simp
  show ?case
  proof (cases "isDirectory node")
    case True
    with "6.prems" have "scan_readable node" by simp
    from "6.IH"(1) [OF refl True this] obtain rs1 where
      c1: "collectWorkflows H ?x node =
             (concat (map (\<lambda>(p, f). fst (parseWorkflow H p f)) (discovered ?x node)), Inr rs1)"
      and l1: "list_all2 (\<lambda>(p, f) r. snd (parseWorkflow H p f) = Inr r) (discovered ?x node) rs1"
      by blast
    from "6.IH"(2) [OF refl True c1 [symmetric] refl rest] obtain rs2 where
      c2: "collectWorkflows_loop H dir entries (results @ rs1) =
             (concat (map (\<lambda>(p, f). fst (parseWorkflow H p f)) (discovered_entries dir entries)),
              Inr ((results @ rs1) @ rs2))"
      and l2: "list_all2 (\<lambda>(p, f) r. snd (parseWorkflow H p f) = Inr r)
                 (discovered_entries dir entries) rs2"
      by blast
    from l1 l2 have "list_all2 (\<lambda>(p, f) r. snd (parseWorkflow H p f) = Inr r)
        (discovered ?x node @ discovered_entries dir entries) (rs1 @ rs2)"
      by (rule list_all2_appendI)
    with True c1 c2 show ?thesis
      by (intro exI [of _ "rs1 @ rs2"]) simp
  next
    case False
    show ?thesis
    proof (cases "isWorkflowFile name")
      case no: False
      from "6.IH"(3) [OF refl False no rest] False no show ?thesis by simp
    next
      case yes: True
      with False "6.prems" obtain raw where raw: "readFile node = Inr raw"
        by (auto split: sum.splits)
      from parseWorkflow_returns [OF raw, of H ?x] obtain r where
        p: "parseWorkflow H ?x node = (parse_warnings H ?x raw, Inr r)" by blast
      from "6.IH"(4) [OF refl False _ p [symmetric] refl rest] yes obtain rs2 where
        c2: "collectWorkflows_loop H dir entries (results @ [r]) =
               (concat (map (\<lambda>(p, f). fst (parseWorkflow H p f)) (discovered_entries dir entries)),
                Inr ((results @ [r]) @ rs2))"
        and l2: "list_all2 (\<lambda>(p, f) r. snd (parseWorkflow H p f) = Inr r)
                   (discovered_entries dir entries) rs2"
        by blast
      from False yes p c2 l2 show ?thesis
        by (intro exI [of _ "r # rs2"]) simp
    qed
  qed
qed simp_all

lemma collect_unreadable:
  "\<not> scan_readable node \<Longrightarrow> \<exists>evs e. collectWorkflows H dir node = (evs, Inl e)"
  "\<not> entries_readable entries \<Longrightarrow>
     \<exists>evs e. collectWorkflows_loop H dir entries results = (evs, Inl e)"
proof (induction H dir node and H dir entries results
       rule: collectWorkflows_collectWorkflows_loop.induct)
  case (1 H dir entries)
  then show ?case by simp
next
  case (6 H dir name node entries results)
  let ?x = "join [dir, name]"
  show ?case
  proof (cases "isDirectory node")
    case True
    show ?thesis
    proof (cases "scan_readable node")
      case False
      from "6.IH"(1) [OF refl True False] True show ?thesis by auto
    next
      case ok: True
      with True "6.prems" have rest: "\<not> entries_readable entries" by simp
      from collect_readable(1) [OF ok, of H ?x] obtain evs rs1 where
        c1: "collectWorkflows H ?x node = (evs, Inr rs1)" by blast
      from "6.IH"(2) [OF refl True c1 [symmetric] refl rest] True c1 show ?thesis by auto
    qed
  next
    case False
    show ?thesis
    proof (cases "isWorkflowFile name")
      case no: False
      with False "6.prems" have rest: "\<not> entries_readable entries" by simp
      from "6.IH"(3) [OF refl False no rest] False no show ?thesis by simp
    next
      case yes: True
      show ?thesis
      proof (cases "readFile node")
        case (Inl e)
        with False yes show ?thesis by (simp add: parseWorkflow_unreadable)
      next
        case (Inr raw)
        with False yes "6.prems" have rest: "\<not> entries_readable entries" by simp
        from parseWorkflow_returns [OF Inr, of H ?x] obtain evs r where
          p: "parseWorkflow H ?x node = (evs, Inr r)" by blast
        from "6.IH"(4) [OF refl False _ p [symmetric] refl rest] yes False p
        show ?thesis by auto
      qed
    qed
  qed
qed simp_all

lemma parseWorkflow_only_warns:
  "filter is_warning (fst (parseWorkflow H path file)) = fst (parseWorkflow H path file)"
  by (cases "readFile file")
     (auto simp: parseWorkflow_def Let_def split: sum.splits prod.splits)

lemma filter_concat_parse_warnings:
  "filter is_warning (concat (map (\<lambda>(p, f). fst (parseWorkflow H p f)) ds)) =
     concat (map (\<lambda>(p, f). fst (parseWorkflow H p f)) ds)"
  by (induction ds) (auto simp: parseWorkflow_only_warns)

lemma loadWorkflows_loop_readable:
  "folders_readable folders \<Longrightarrow>
     \<exists>evs ws' rs. loadWorkflows_loop H folders wfs ws = (evs, ws', Inr (wfs @ rs))
        \<and> list_all2 (\<lambda>(p, f) r. snd (parseWorkflow H p f) = Inr r) (scan_files folders) rs
        \<and> filter is_warning evs =
            concat (map (\<lambda>(p, f). fst (parseWorkflow H p f)) (scan_files folders))"
proof (induction folders arbitrary: wfs ws)
  case Nil
  then show ?case by (simp add: scan_files_def)
next
  case (Cons folder folders)
  from Cons.prems have rest: "folders_readable folders"
    by (simp add: folders_readable_def)
  show ?case
  proof (cases "windsurf folder")
    case None
    with Cons.IH [OF rest, of wfs ws] show ?thesis
      by (simp add: pathExists_def scan_files_def)
  next
    case (Some node)
    let ?dir = "join [fsPath folder, ''.windsurf'']"
    let ?w = "FileSystemWatcher (fsPath folder) ''.windsurf/**/*.{json,yaml,yml,workflow}''"
    from Some Cons.prems have "scan_readable node"
      by (simp add: folders_readable_def)
    from collect_readable(1) [OF this, of H ?dir] obtain rs1 where
      c1: "collectWorkflows H ?dir node =
             (concat (map (\<lambda>(p, f). fst (parseWorkflow H p f)) (discovered ?dir node)), Inr rs1)"
      and l1: "list_all2 (\<lambda>(p, f) r. snd (parseWorkflow H p f) = Inr r) (discovered ?dir node) rs1"
      by blast
    from Cons.IH [OF rest, of "wfs @ rs1" "ws @ [?w]"] obtain evs ws' rs2 where
      c2: "loadWorkflows_loop H folders (wfs @ rs1) (ws @ [?w]) = (evs, ws', Inr ((wfs @ rs1) @ rs2))"
      and l2: "list_all2 (\<lambda>(p, f) r. snd (parseWorkflow H p f) = Inr r) (scan_files folders) rs2"
      and w2: "filter is_warning evs =
                 concat (map (\<lambda>(p, f). fst (parseWorkflow H p f)) (scan_files folders))"
      by blast
    from l1 l2 have l: "list_all2 (\<lambda>(p, f) r. snd (parseWorkflow H p f) = Inr r)
        (discovered ?dir node @ scan_files folders) (rs1 @ rs2)"
      by (rule list_all2_appendI)
    have sf: "scan_files (folder # folders) = discovered ?dir node @ scan_files folders"
      using Some by (simp add: scan_files_def)
    from Some c1 c2 w2 l show ?thesis
      unfolding sf
      by (intro exI [of _ "rs1 @ rs2"] exI [of _ ws']
            exI [of _ "concat (map (\<lambda>(p, f). fst (parseWorkflow H p f)) (discovered ?dir node))
                        @ CreateFileSystemWatcher ?w # evs"])
         (simp add: pathExists_def filter_concat_parse_warnings)
  qed
qed

lemma loadWorkflows_loop_unreadable:
  "\<not> folders_readable folders \<Longrightarrow>
     \<exists>evs ws' e. loadWorkflows_loop H folders wfs ws = (evs, ws', Inl e)"
proof (induction folders arbitrary: wfs ws)
  case Nil
  then show ?case by (simp add: folders_readable_def)
next
  case (Cons folder folders)
  show ?case
  proof (cases "windsurf folder")
    case None
    with Cons.prems have "\<not> folders_readable folders"
      by (simp add: folders_readable_def)
    from Cons.IH [OF this, of wfs ws] None show ?thesis
      by (simp add: pathExists_def)
  next
    case (Some node)
    let ?dir = "join [fsPath folder, ''.windsurf'']"
    show ?thesis
    proof (cases "scan_readable node")
      case False
      from collect_unreadable(1) [OF False, of H ?dir] Some show ?thesis
        by (auto simp: pathExists_def)
    next
      case True
      with Some Cons.prems have rest: "\<not> folders_readable folders"
        by (simp add: folders_readable_def)
      from collect_readable(1) [OF True, of H ?dir] obtain evs rs1 where
        c1: "collectWorkflows H ?dir node = (evs, Inr rs1)" by blast
      from Cons.IH [OF rest, of "wfs @ rs1"
          "ws @ [FileSystemWatcher (fsPath folder) ''.windsurf/**/*.{json,yaml,yml,workflow}'']"]
      obtain evs' ws' e where
        c2: "loadWorkflows_loop H folders (wfs @ rs1)
               (ws @ [FileSystemWatcher (fsPath folder)
                        ''.windsurf/**/*.{json,yaml,yml,workflow}'']) = (evs', ws', Inl e)"
        by blast
      from Some c1 c2 show ?thesis
        by (simp add: pathExists_def)
    qed
  qed
qed

lemma parseWorkflow_filePath: "snd (parseWorkflow H path file) = Inr r \<Longrightarrow> filePath r = path"
  by (cases "readFile file") (auto simp: parseWorkflow_def Let_def split: sum.splits prod.splits)

lemma parsed_paths:
  "list_all2 (\<lambda>(p, f) r. snd (parseWorkflow H p f) = Inr r) ds rs \<Longrightarrow>
     map filePath rs = map fst ds"
  by (induction ds rs rule: list_all2_induct) (auto simp: parseWorkflow_filePath)

lemma parseWorkflow_decode_error:
  "decode H (toLowerCase (extname path)) raw = Inl err \<Longrightarrow>
     parseWorkflow H path (RegularFile raw) =
       ([ShowWarningMessage (''Unable to parse workflow '' @ basename path @ '': '' @ err)],
        Inr \<lparr>label = basename path, description = None, filePath = path, command = None\<rparr>)"
  by (simp add: parseWorkflow_readable parse_warnings_def decoded_def)

subsection \<open>One record for each file\<close>

text \<open>
  Claim C1 fails on the code: a record is not produced for every accepted file that a
  scan discovers. Here the scan discovers \<^verbatim>\<open>a.yaml\<close>, which \<open>isWorkflowFile\<close> accepts,
  which can be read and which parses to the record \<^verbatim>\<open>Build\<close>; the next file is gone
  when it is read, the scan ends with \<^verbatim>\<open>ENOENT\<close>, and the provider's list has no record
  for \<^verbatim>\<open>a.yaml\<close>.
\<close>

theorem readable_file_gets_no_record:
  "isWorkflowFile ''a.yaml''
   \<and> map fst (scan_files [vanishing_folder]) =
       [''/proj/.windsurf/a.yaml'', ''/proj/.windsurf/gone.json'']
   \<and> parseWorkflow example_host ''/proj/.windsurf/a.yaml''
       (RegularFile ''{name: Build, command: make}'') =
       ([], Inr \<lparr>label = ''Build'', description = None,
                 filePath = ''/proj/.windsurf/a.yaml'', command = Some ''make''\<rparr>)
   \<and> loadWorkflows example_host (Some [vanishing_folder]) new_provider =
       ([], \<lparr>workflows = [], watchers = []\<rparr>, Some (FsError ''ENOENT''))"
  by code_simp

text \<open>
  Claim C1, amended. When every read of a scan succeeds, the scan completes and its
  records are, one for one, the results of \<open>parseWorkflow\<close> on the accepted files in
  the order the scan reaches them, whatever the decoders did with them: one record each
  time the scan reaches a file that \<open>isWorkflowFile\<close> accepts (a file under the
  \<^verbatim>\<open>.windsurf\<close> directories of two folders is reached twice). The provider's list holds
  exactly these records, and the warnings shown are those of the files, in the order of
  the scan. A file on which the decoder throws does not end the scan: it gives exactly
  one warning, with the file's base name, and a record with the base name as label and
  neither description nor command. The base name of the path that the scan makes for an
  entry of a directory is the entry's name.
\<close>

theorem one_record_per_discovered_file:
  "folders_readable folders \<Longrightarrow>
     (\<exists>evs this' rs.
        loadWorkflows H (Some folders) this = (evs, this', None)
        \<and> mset (workflows this') = mset rs
        \<and> list_all2 (\<lambda>(p, f) r. snd (parseWorkflow H p f) = Inr r) (scan_files folders) rs
        \<and> map filePath rs = map fst (scan_files folders)
        \<and> filter is_warning evs =
            concat (map (\<lambda>(p, f). fst (parseWorkflow H p f)) (scan_files folders)))
   \<and> (\<forall>path raw err.
        decode H (toLowerCase (extname path)) raw = Inl err \<longrightarrow>
        parseWorkflow H path (RegularFile raw) =
          ([ShowWarningMessage (''Unable to parse workflow '' @ basename path @ '': '' @ err)],
           Inr \<lparr>label = basename path, description = None, filePath = path,
                command = None\<rparr>))
   \<and> (\<forall>dir name. entry_name name \<longrightarrow> basename (join [dir, name]) = name)"
proof (intro conjI allI impI)
  fix dir name
  assume "entry_name name"
  then show "basename (join [dir, name]) = name" by (rule basename_join)
next
  assume "folders_readable folders"
  from loadWorkflows_loop_readable [OF this, of H "[]" "[]"] obtain evs ws' rs where
    l: "loadWorkflows_loop H folders [] [] = (evs, ws', Inr rs)"
    and p: "list_all2 (\<lambda>(p, f) r. snd (parseWorkflow H p f) = Inr r) (scan_files folders) rs"
    and w: "filter is_warning evs =
              concat (map (\<lambda>(p, f). fst (parseWorkflow H p f)) (scan_files folders))"
    by auto
  have dispose: "filter is_warning (map WatcherDispose ws) = []" for ws
    by (induction ws) simp_all
  from l p w parsed_paths [OF p] show
    "\<exists>evs this' rs.
        loadWorkflows H (Some folders) this = (evs, this', None)
        \<and> mset (workflows this') = mset rs
        \<and> list_all2 (\<lambda>(p, f) r. snd (parseWorkflow H p f) = Inr r) (scan_files folders) rs
        \<and> map filePath rs = map fst (scan_files folders)
        \<and> filter is_warning evs =
            concat (map (\<lambda>(p, f). fst (parseWorkflow H p f)) (scan_files folders))"
    by (simp add: loadWorkflows_def mset_Array_sort dispose) blast
next
  fix path raw err
  assume "decode H (toLowerCase (extname path)) raw = Inl err"
  then show "parseWorkflow H path (RegularFile raw) =
          ([ShowWarningMessage (''Unable to parse workflow '' @ basename path @ '': '' @ err)],
           Inr \<lparr>label = basename path, description = None, filePath = path,
                command = None\<rparr>)"
    by (rule parseWorkflow_decode_error)
qed

lemma example_folders_readable: "folders_readable [missing_folder, example_folder]"
  by code_simp

lemma example_scan_files:
  "scan_files [missing_folder, example_folder] =
     [(''/proj/.windsurf/b.json'', RegularFile ''{}''),
      (''/proj/.windsurf/sub/broken.yml'', RegularFile ''name: [''),
      (''/proj/.windsurf/sub/.json'', RegularFile ''{name: Test, command: echo hi}''),
      (''/proj/.windsurf/a.yaml'', RegularFile ''{name: Build, command: make}'')]"
  by code_simp

lemma example_scan_two:
  "loadWorkflows example_host (Some [missing_folder, example_folder]) new_provider =
     ([ShowWarningMessage
         ''Unable to parse workflow broken.yml: YAMLException: bad indentation'',
       CreateFileSystemWatcher example_watcher],
      scanned_provider, None)"
  by code_simp

lemma example_broken_decode:
  "decode example_host (toLowerCase (extname ''/proj/.windsurf/sub/broken.yml'')) ''name: ['' =
     Inl ''YAMLException: bad indentation''"
  by code_simp

lemma example_broken_basename: "basename ''/proj/.windsurf/sub/broken.yml'' = ''broken.yml''"
  by code_simp

lemma example_nested_readable: "folders_readable nested_folders"
  by code_simp

lemma example_nested_scan_files:
  "map fst (scan_files nested_folders) =
     [''/proj/.windsurf/inner/.windsurf/x.yaml'', ''/proj/.windsurf/inner/.windsurf/x.yaml'']"
  by code_simp

theorem one_record_per_discovered_file_witness:
  "folders_readable [missing_folder, example_folder]
   \<and> snd (snd (loadWorkflows example_host (Some [missing_folder, example_folder]) new_provider))
     = None
   \<and> mset (map filePath (workflows scanned_provider)) =
       mset [''/proj/.windsurf/b.json'', ''/proj/.windsurf/sub/broken.yml'',
             ''/proj/.windsurf/sub/.json'', ''/proj/.windsurf/a.yaml'']
   \<and> parseWorkflow example_host ''/proj/.windsurf/sub/broken.yml'' (RegularFile ''name: ['') =
       ([ShowWarningMessage
           ''Unable to parse workflow broken.yml: YAMLException: bad indentation''],
        Inr \<lparr>label = ''broken.yml'', description = None,
             filePath = ''/proj/.windsurf/sub/broken.yml'', command = None\<rparr>)
   \<and> folders_readable nested_folders
   \<and> (\<exists>evs this'.
         loadWorkflows example_host (Some nested_folders) new_provider = (evs, this', None)
         \<and> mset (map filePath (workflows this')) =
             mset [''/proj/.windsurf/inner/.windsurf/x.yaml'',
                   ''/proj/.windsurf/inner/.windsurf/x.yaml''])"
proof -
  from one_record_per_discovered_file [OF example_nested_readable, of example_host new_provider]
  obtain evs this' rs where
    n: "loadWorkflows example_host (Some nested_folders) new_provider = (evs, this', None)"
    and nm: "mset (workflows this') = mset rs"
    and np: "map filePath rs = map fst (scan_files nested_folders)"
    by blast
  from nm have "mset (map filePath (workflows this')) = mset (map filePath rs)"
    by (metis mset_map)
  with np have nested: "mset (map filePath (workflows this')) =
      mset [''/proj/.windsurf/inner/.windsurf/x.yaml'',
            ''/proj/.windsurf/inner/.windsurf/x.yaml'']"
    by (simp add: example_nested_scan_files)
  note inst =
    one_record_per_discovered_file [OF example_folders_readable, of example_host new_provider]
  from inst obtain rs where
    m: "mset (workflows scanned_provider) = mset rs"
    and p: "map filePath rs = map fst (scan_files [missing_folder, example_folder])"
    by (auto simp: example_scan_two)
  from m have "mset (map filePath (workflows scanned_provider)) = mset (map filePath rs)"
    by (metis mset_map)
  with p have paths: "mset (map filePath (workflows scanned_provider)) =
       mset [''/proj/.windsurf/b.json'', ''/proj/.windsurf/sub/broken.yml'',
             ''/proj/.windsurf/sub/.json'', ''/proj/.windsurf/a.yaml'']"
    by (simp add: example_scan_files)
  from inst example_broken_decode have
    "parseWorkflow example_host ''/proj/.windsurf/sub/broken.yml'' (RegularFile ''name: ['') =
       ([ShowWarningMessage
           (''Unable to parse workflow '' @ basename ''/proj/.windsurf/sub/broken.yml'' @ '': ''
              @ ''YAMLException: bad indentation'')],
        Inr \<lparr>label = basename ''/proj/.windsurf/sub/broken.yml'', description = None,
             filePath = ''/proj/.windsurf/sub/broken.yml'', command = None\<rparr>)"
    by blast
  with paths example_folders_readable have first:
    "folders_readable [missing_folder, example_folder]
     \<and> snd (snd (loadWorkflows example_host (Some [missing_folder, example_folder])
                   new_provider)) = None
     \<and> mset (map filePath (workflows scanned_provider)) =
         mset [''/proj/.windsurf/b.json'', ''/proj/.windsurf/sub/broken.yml'',
               ''/proj/.windsurf/sub/.json'', ''/proj/.windsurf/a.yaml'']
     \<and> parseWorkflow example_host ''/proj/.windsurf/sub/broken.yml''
           (RegularFile ''name: ['') =
         ([ShowWarningMessage
             ''Unable to parse workflow broken.yml: YAMLException: bad indentation''],
          Inr \<lparr>label = ''broken.yml'', description = None,
               filePath = ''/proj/.windsurf/sub/broken.yml'', command = None\<rparr>)"
    by (simp add: example_scan_two example_broken_basename)
  from n nested have
    "\<exists>evs this'.
       loadWorkflows example_host (Some nested_folders) new_provider = (evs, this', None)
       \<and> mset (map filePath (workflows this')) =
           mset [''/proj/.windsurf/inner/.windsurf/x.yaml'',
                 ''/proj/.windsurf/inner/.windsurf/x.yaml'']"
    by blast
  with first example_nested_readable show ?thesis by blast
qed

subsection \<open>Reads that fail\<close>

text \<open>
  Claim C2 fails on the code: a file that is listed and cannot be read makes the scan
  fail. Here \<^verbatim>\<open>gone.json\<close> is missing when it is read: the scan ends with \<^verbatim>\<open>ENOENT\<close>,
  no warning is shown, no record is made for the file, and the provider keeps the list
  of the scan before, its watcher disposed.
\<close>

theorem scan_fails_on_missing_file:
  "loadWorkflows example_host (Some [vanishing_folder]) scanned_provider =
     ([WatcherDispose example_watcher],
      \<lparr>workflows = example_records, watchers = []\<rparr>,
      Some (FsError ''ENOENT''))"
  by code_simp

text \<open>
  Claim C2, amended. An error of the decoder never leaves \<open>parseWorkflow\<close>: the file
  gives a warning and a record with the base name as label and no other field. A read
  that is rejected is not caught: \<open>parseWorkflow\<close> ends with the error of the read and
  shows nothing. A scan completes exactly when all its reads succeed, and a scan that
  fails leaves the provider's list of records as it was.
\<close>

theorem scan_completes_iff_readable:
  "(\<forall>path raw err.
      decode H (toLowerCase (extname path)) raw = Inl err \<longrightarrow>
      (\<exists>r. parseWorkflow H path (RegularFile raw) =
              ([ShowWarningMessage
                  (''Unable to parse workflow '' @ basename path @ '': '' @ err)], Inr r)
           \<and> label r = basename path \<and> description r = None \<and> command r = None))
   \<and> (\<forall>path file e. readFile file = Inl e \<longrightarrow> parseWorkflow H path file = ([], Inl e))
   \<and> ((\<exists>evs this'. loadWorkflows H (Some folders) this = (evs, this', None))
        \<longleftrightarrow> folders_readable folders)
   \<and> (\<forall>evs this' e.
        loadWorkflows H (Some folders) this = (evs, this', Some e) \<longrightarrow>
        workflows this' = workflows this)"
proof (intro conjI allI impI)
  fix path raw err
  assume "decode H (toLowerCase (extname path)) raw = Inl err"
  from parseWorkflow_decode_error [OF this]
  show "\<exists>r. parseWorkflow H path (RegularFile raw) =
              ([ShowWarningMessage
                  (''Unable to parse workflow '' @ basename path @ '': '' @ err)], Inr r)
           \<and> label r = basename path \<and> description r = None \<and> command r = None"
    by simp
next
  fix path "file" e
  assume "readFile file = Inl e"
  then show "parseWorkflow H path file = ([], Inl e)"
    by (rule parseWorkflow_unreadable)
next
  show "(\<exists>evs this'. loadWorkflows H (Some folders) this = (evs, this', None))
        \<longleftrightarrow> folders_readable folders"
  proof (cases "folders_readable folders")
    case True
    from loadWorkflows_loop_readable [OF True, of H "[]" "[]"] True show ?thesis
      by (auto simp: loadWorkflows_def)
  next
    case False
    from loadWorkflows_loop_unreadable [OF False, of H "[]" "[]"] False show ?thesis
      by (auto simp: loadWorkflows_def)
  qed
next
  fix evs this' e
  assume "loadWorkflows H (Some folders) this = (evs, this', Some e)"
  then show "workflows this' = workflows this"
    by (auto simp: loadWorkflows_def split: prod.splits sum.splits)
qed

lemma example_vanishing_unreadable: "\<not> folders_readable [vanishing_folder]"
  by code_simp

theorem scan_completes_iff_readable_witness:
  "folders_readable [missing_folder, example_folder]
   \<and> (\<exists>evs this'. loadWorkflows example_host (Some [missing_folder, example_folder])
                      new_provider = (evs, this', None))
   \<and> \<not> folders_readable [vanishing_folder]
   \<and> \<not> (\<exists>evs this'. loadWorkflows example_host (Some [vanishing_folder]) scanned_provider
                      = (evs, this', None))
   \<and> readFile (UnreadableFile (FsError ''ENOENT'')) = Inl (FsError ''ENOENT'')
   \<and> parseWorkflow example_host ''/proj/.windsurf/gone.json''
       (UnreadableFile (FsError ''ENOENT'')) = ([], Inl (FsError ''ENOENT''))"
proof -
  have r: "readFile (UnreadableFile (FsError ''ENOENT'')) = Inl (FsError ''ENOENT'')"
    by simp
  from scan_completes_iff_readable
         [of example_host "[missing_folder, example_folder]" new_provider]
       scan_completes_iff_readable [of example_host "[vanishing_folder]" scanned_provider]
       example_folders_readable example_vanishing_unreadable r
  show ?thesis by blast
qed

subsection \<open>The filter and the choice of the decoder\<close>

lemma ends_with_ci_iff:
  "ends_with_ci s suf \<longleftrightarrow> (\<exists>pre x. s = pre @ x \<and> map ascii_lower x = suf)"
proof
  assume "ends_with_ci s suf"
  then have "s = take (length s - length suf) s @ drop (length s - length suf) s
      \<and> map ascii_lower (drop (length s - length suf) s) = suf"
    by (simp add: ends_with_ci_def)
  then show "\<exists>pre x. s = pre @ x \<and> map ascii_lower x = suf" by blast
next
  assume "\<exists>pre x. s = pre @ x \<and> map ascii_lower x = suf"
  then obtain pre x where s: "s = pre @ x" and x: "map ascii_lower x = suf" by blast
  from x have "length x = length suf" by auto
  with s x show "ends_with_ci s suf" by (simp add: ends_with_ci_def)
qed

lemma ex_suffix_in:
  "(\<exists>pre x. s = pre @ x \<and> f x \<in> {a, b, c, d}) \<longleftrightarrow>
     (\<exists>pre x. s = pre @ x \<and> f x = a) \<or> (\<exists>pre x. s = pre @ x \<and> f x = b)
     \<or> (\<exists>pre x. s = pre @ x \<and> f x = c) \<or> (\<exists>pre x. s = pre @ x \<and> f x = d)"
  by blast

lemma extname_dot_json: "extname (dir @ ''/.json'') = []"
  by (simp add: extname_def)

lemma entry_name_dot_json: "entry_name ''.json''"
  by (simp add: entry_name_def)

lemma extname_dot_json_alone: "extname ''.json'' = []"
  by code_simp

lemma extname_join_dot_json: "extname (join [dir, ''.json'']) = []"
proof -
  from join_entry_name [OF entry_name_dot_json, of dir] obtain r where
    j: "join [dir, ''.json''] = r @ ''.json''" and r: "r = [] \<or> last r = CHR ''/''"
    by blast
  show ?thesis
  proof (cases "r = []")
    case True
    with j show ?thesis by (simp add: extname_dot_json_alone)
  next
    case False
    with r obtain r' where "r = r' @ ''/''"
      by (metis append_butlast_last_id)
    with j extname_dot_json [of r'] show ?thesis by simp
  qed
qed

lemma toLowerCase_Nil: "toLowerCase [] = []"
  by (simp add: toLowerCase_def)

lemma isWorkflowFile_dot_json: "isWorkflowFile ''.json''"
  by code_simp

text \<open>
  Claim C9. \<open>isWorkflowFile\<close> accepts a name that ends, in any mix of ASCII cases, with
  one of the four suffixes; the decoder is \<^verbatim>\<open>JSON.parse\<close> when the lower-case
  \<^verbatim>\<open>path.extname\<close> of the path is \<^verbatim>\<open>.json\<close> and \<^verbatim>\<open>yaml.load\<close> otherwise. A file named
  \<^verbatim>\<open>.json\<close> is accepted, the \<^verbatim>\<open>extname\<close> of its path is empty (of \<open>dir/.json\<close>
  and of the path the scan makes with \<^verbatim>\<open>path.join\<close>, in any directory), and its text
  goes to \<^verbatim>\<open>yaml.load\<close>.
\<close>

theorem dotfile_json_goes_to_yaml:
  "(isWorkflowFile name \<longleftrightarrow>
      (\<exists>pre suf. name = pre @ suf
         \<and> map ascii_lower suf \<in> {''.workflow'', ''.yaml'', ''.yml'', ''.json''}))
   \<and> (toLowerCase (extname path) = ''.json'' \<longrightarrow>
        decode H (toLowerCase (extname path)) raw = JSON_parse H raw)
   \<and> (toLowerCase (extname path) \<noteq> ''.json'' \<longrightarrow>
        decode H (toLowerCase (extname path)) raw =
          (case yaml_load H raw of Inl err \<Rightarrow> Inl err | Inr v \<Rightarrow> Inr (nullish_default v)))
   \<and> isWorkflowFile ''.json''
   \<and> extname (dir @ ''/.json'') = []
   \<and> extname (join [dir, ''.json'']) = []
   \<and> decode H (toLowerCase (extname (join [dir, ''.json'']))) raw =
       (case yaml_load H raw of Inl err \<Rightarrow> Inl err | Inr v \<Rightarrow> Inr (nullish_default v))"
proof -
  have "isWorkflowFile name \<longleftrightarrow>
      (\<exists>pre suf. name = pre @ suf
         \<and> map ascii_lower suf \<in> {''.workflow'', ''.yaml'', ''.yml'', ''.json''})"
    unfolding isWorkflowFile_def ends_with_ci_iff by (rule ex_suffix_in [symmetric])
  moreover have "decode H (toLowerCase (extname (join [dir, ''.json'']))) raw =
       (case yaml_load H raw of Inl err \<Rightarrow> Inl err | Inr v \<Rightarrow> Inr (nullish_default v))"
    by (simp add: decode_def extname_join_dot_json toLowerCase_Nil)
  moreover have "toLowerCase (extname path) = ''.json'' \<longrightarrow>
        decode H (toLowerCase (extname path)) raw = JSON_parse H raw"
    by (simp add: decode_def)
  moreover have "toLowerCase (extname path) \<noteq> ''.json'' \<longrightarrow>
        decode H (toLowerCase (extname path)) raw =
          (case yaml_load H raw of Inl err \<Rightarrow> Inl err | Inr v \<Rightarrow> Inr (nullish_default v))"
    by (simp add: decode_def)
  ultimately show ?thesis
    using extname_dot_json [of dir] extname_join_dot_json [of dir] isWorkflowFile_dot_json
    by blast
qed

lemma example_dotfile_parsed:
  "parseWorkflow example_host ''/proj/.windsurf/sub/.json''
     (RegularFile ''{name: Test, command: echo hi}'') =
     ([], Inr \<lparr>label = ''Test'', description = None,
               filePath = ''/proj/.windsurf/sub/.json'', command = Some ''echo hi''\<rparr>)"
  by code_simp

lemma example_upper_json:
  "isWorkflowFile ''Deploy.JSON''"
  "toLowerCase (extname ''/proj/.windsurf/Deploy.JSON'') = ''.json''"
  by code_simp+

theorem dotfile_json_goes_to_yaml_witness:
  "isWorkflowFile ''Deploy.JSON''
   \<and> decode example_host (toLowerCase (extname ''/proj/.windsurf/Deploy.JSON'')) ''{}'' =
       Inr (JObject [])
   \<and> isWorkflowFile ''.json''
   \<and> extname ''/proj/.windsurf/sub/.json'' = []
   \<and> JSON_parse example_host ''{name: Test, command: echo hi}'' =
       Inl ''SyntaxError: Unexpected token''
   \<and> decode example_host (toLowerCase (extname ''/proj/.windsurf/sub/.json''))
       ''{name: Test, command: echo hi}'' =
       Inr (JObject [(''name'', JString ''Test''), (''command'', JString ''echo hi'')])
   \<and> parseWorkflow example_host ''/proj/.windsurf/sub/.json''
       (RegularFile ''{name: Test, command: echo hi}'') =
       ([], Inr \<lparr>label = ''Test'', description = None,
                 filePath = ''/proj/.windsurf/sub/.json'', command = Some ''echo hi''\<rparr>)"
proof -
  have j: "JSON_parse example_host ''{}'' = Inr (JObject [])"
    "JSON_parse example_host ''{name: Test, command: echo hi}'' =
       Inl ''SyntaxError: Unexpected token''"
    by code_simp+
  have y: "yaml_load example_host ''{name: Test, command: echo hi}'' =
      Inr (JObject [(''name'', JString ''Test''), (''command'', JString ''echo hi'')])"
    by code_simp
  from dotfile_json_goes_to_yaml
         [of "''Deploy.JSON''" "''/proj/.windsurf/Deploy.JSON''" example_host "''{}''"
             "''/proj/.windsurf/sub''"]
       dotfile_json_goes_to_yaml
         [of "''.json''" "''/proj/.windsurf/sub/.json''" example_host
             "''{name: Test, command: echo hi}''" "''/proj/.windsurf/sub''"]
  show ?thesis
    by (simp add: example_upper_json j y example_dotfile_parsed toLowerCase_Nil)
qed

end
